theory Spec2Isabelle
  imports Complex_Main
begin

section \<open>Values shared by the whole development\<close>

text \<open>
  The knowledge base of \<^verbatim>\<open>simag/core/kblogic.py\<close> and the atoms of
  \<^verbatim>\<open>simag/core/parser.py\<close>. Python exceptions are values of \<open>error\<close>; a
  function that may raise returns \<open>error + 'a\<close>. Python's \<^verbatim>\<open>True\<close>,
  \<^verbatim>\<open>False\<close> and \<^verbatim>\<open>None\<close> answers are \<open>Some True\<close>, \<open>Some False\<close>
  and \<open>None\<close>. Fuzzy values are the numbers that \<^verbatim>\<open>float(...)\<close> yields for the
  decimal literals of the grammar; they are modelled as reals. Time stamps are natural
  numbers, and \<open>now\<close> is the reading of the clock when two atoms are compared.
\<close>

datatype error =
    AssertionError | TypeError | KeyError | IndexError | AttributeError
  | UnboundLocalError | NotCompFuncError | NotImplementedError

type_synonym tri = "bool option"

section \<open>Atoms (parser.py)\<close>

subsection \<open>The parser's output for one assertion\<close>

text \<open>
  The grammar module is not part of the sources; an assertion arrives as the syntax tree
  the constructors read: \<^verbatim>\<open>klass\<close> or \<^verbatim>\<open>func\<close>, and \<^verbatim>\<open>args\<close>, each with
  \<^verbatim>\<open>term\<close> and an optional \<^verbatim>\<open>uval = (op, number)\<close>.
\<close>

record ast_arg =
  a_term :: string
  a_uval :: "(string \<times> real) option"

datatype assertion = KlassA string "ast_arg list" | FuncA string "ast_arg list"

subsection \<open>Membership atoms\<close>

datatype atom_class = GroundedTerm | FreeTerm

record pred =
  p_class :: atom_class
  p_parent :: string
  p_term :: string
  p_value :: real
  p_op :: string
  p_dates :: "nat list option"

text \<open>
  \<^verbatim>\<open>LogPredicate.__init__\<close>: reads \<^verbatim>\<open>pred.args[0]\<close> and its \<^verbatim>\<open>uval\<close>. On an
  illegal value the message is built with \<^verbatim>\<open>val[1]\<close>, which subscripts a float, so the
  exception that leaves is a TypeError. The optional dates are never set
  (\<^verbatim>\<open>dates = None\<close>).
\<close>

definition LogPredicate_init ::
  "string \<Rightarrow> ast_arg list \<Rightarrow> error + (string \<times> string \<times> real \<times> string \<times> nat list option)" where
  "LogPredicate_init klass args =
     (case args of
        [] \<Rightarrow> Inl IndexError
      | arg # _ \<Rightarrow>
          (case a_uval arg of
             None \<Rightarrow> Inl TypeError
           | Some (opr, val) \<Rightarrow>
               if val > 1 \<or> val < 0 then Inl TypeError
               else Inr (klass, a_term arg, val, opr, None)))"

text \<open>\<^verbatim>\<open>GroundedTerm.__init__\<close> with \<^verbatim>\<open>fromfree\<close> false.\<close>

definition GroundedTerm_init :: "string \<Rightarrow> ast_arg list \<Rightarrow> error + pred" where
  "GroundedTerm_init klass args =
     (case LogPredicate_init klass args of
        Inl e \<Rightarrow> Inl e
      | Inr (parent, trm, val, opr, dates) \<Rightarrow>
          if opr \<noteq> ''='' then Inl AssertionError
          else if val > 1 \<or> val < 0 then Inl AssertionError
          else Inr \<lparr>p_class = GroundedTerm, p_parent = parent, p_term = trm,
                    p_value = val, p_op = opr, p_dates = dates\<rparr>)"

text \<open>\<^verbatim>\<open>FreeTerm.__init__\<close>.\<close>

definition FreeTerm_init :: "string \<Rightarrow> ast_arg list \<Rightarrow> error + pred" where
  "FreeTerm_init klass args =
     (case LogPredicate_init klass args of
        Inl e \<Rightarrow> Inl e
      | Inr (parent, trm, val, opr, dates) \<Rightarrow>
          Inr \<lparr>p_class = FreeTerm, p_parent = parent, p_term = trm,
                p_value = val, p_op = opr, p_dates = dates\<rparr>)"

text \<open>
  \<^verbatim>\<open>GroundedTerm.__init__\<close> with \<^verbatim>\<open>fromfree\<close> true (reached through
  \<^verbatim>\<open>FreeTerm.substitute(sbj, ground=True)\<close>): every attribute of the free term is
  copied and the subject replaced.
\<close>

definition GroundedTerm_fromfree :: "pred \<Rightarrow> string \<Rightarrow> pred" where
  "GroundedTerm_fromfree p sbj = p\<lparr>p_class := GroundedTerm, p_term := sbj\<rparr>"

text \<open>\<^verbatim>\<open>FreeTerm.substitute\<close> with \<^verbatim>\<open>ground\<close> false: a copy with a new subject.\<close>

definition FreeTerm_substitute :: "pred \<Rightarrow> string \<Rightarrow> pred" where
  "FreeTerm_substitute p sbj = p\<lparr>p_term := sbj\<rparr>"

text \<open>
  \<^verbatim>\<open>MetaForAtoms.__eval_time_truth\<close>. An atom without dates counts as true; with
  dates it is true when their number is odd and the last one lies in the past. The last
  test reads \<^verbatim>\<open>(a and b) is True or (a and b) is False\<close> on two booleans.
\<close>

definition is_true_now :: "nat \<Rightarrow> nat list option \<Rightarrow> bool" where
  "is_true_now now ds =
     (case ds of
        None \<Rightarrow> True
      | Some d \<Rightarrow> (length d mod 2 \<noteq> 0 \<or> length d = 1) \<and> last d < now)"

definition eval_time_truth :: "nat \<Rightarrow> nat list option \<Rightarrow> nat list option \<Rightarrow> bool" where
  "eval_time_truth now self_dates other_dates =
     (let isTrueSelf = is_true_now now self_dates;
          isTrueOther = is_true_now now other_dates
      in if (isTrueOther \<and> isTrueSelf) = True \<or> (isTrueOther \<and> isTrueSelf) = False
         then True else False)"

text \<open>\<^verbatim>\<open>GroundedTerm.__eq__\<close>.\<close>

definition GroundedTerm_eq :: "nat \<Rightarrow> pred \<Rightarrow> pred \<Rightarrow> bool" where
  "GroundedTerm_eq now self other =
     (if eval_time_truth now (p_dates self) (p_dates other) = False then False
      else if p_parent other = p_parent self \<and> p_term other = p_term self then True
      else False)"

text \<open>
  \<^verbatim>\<open>FreeTerm.__eq__\<close>. Its TypeError is for an \<^verbatim>\<open>other\<close> that is no
  \<^verbatim>\<open>LogPredicate\<close>, which the type \<open>pred\<close> excludes.
\<close>

definition FreeTerm_eq :: "nat \<Rightarrow> pred \<Rightarrow> pred \<Rightarrow> bool" where
  "FreeTerm_eq now self other =
     (if eval_time_truth now (p_dates self) (p_dates other) = False then False
      else if p_op self = ''='' \<and> p_value other = p_value self then True
      else if p_op self = ''>'' \<and> p_value other > p_value self then True
      else if p_op self = ''<'' \<and> p_value other < p_value self then True
      else False)"

text \<open>\<^verbatim>\<open>self == other\<close> on membership atoms: the class of the left operand decides.\<close>

definition pred_eq :: "nat \<Rightarrow> pred \<Rightarrow> pred \<Rightarrow> bool" where
  "pred_eq now self other =
     (case p_class self of
        GroundedTerm \<Rightarrow> GroundedTerm_eq now self other
      | FreeTerm \<Rightarrow> FreeTerm_eq now self other)"

subsection \<open>Relation atoms\<close>

text \<open>
  An argument is a bare term or a tuple \<^verbatim>\<open>(term, val, op)\<close>. The attribute
  \<^verbatim>\<open>value\<close> is \<^verbatim>\<open>mk_args[0][1]\<close>: the number of the first tuple, or, when the first
  argument is a bare term, the second character of its name.
\<close>

datatype arg = Bare string | Valued string real string

datatype rvalue = Num real | Chr char

record func =
  f_func :: string
  f_args :: "arg list"
  f_args_ID :: int
  f_arity :: nat
  f_value :: rvalue
  f_dates :: "nat list option"

text \<open>
  \<^verbatim>\<open>LogFunction.__init__\<close>: the loop over \<^verbatim>\<open>sent.args\<close>, stopping at the first
  illegal value. \<^verbatim>\<open>hash\<close> is Python's hash of the tuple of argument names, a
  parameter \<open>hsh\<close> here.
\<close>

fun mk_args :: "ast_arg list \<Rightarrow> error + arg list" where
  "mk_args [] = Inr []"
| "mk_args (a # as) =
     (case a_uval a of
        Some (opr, val) \<Rightarrow>
          if val > 1 \<or> val < 0 then Inl AssertionError
          else (case mk_args as of Inl e \<Rightarrow> Inl e
                | Inr r \<Rightarrow> Inr (Valued (a_term a) val opr # r))
      | None \<Rightarrow>
          (case mk_args as of Inl e \<Rightarrow> Inl e | Inr r \<Rightarrow> Inr (Bare (a_term a) # r)))"

definition LogFunction_init ::
  "(string list \<Rightarrow> int) \<Rightarrow> ast_arg list \<Rightarrow> error + (arg list \<times> int \<times> nat \<times> nat list option)" where
  "LogFunction_init hsh args =
     (case mk_args args of
        Inl e \<Rightarrow> Inl e
      | Inr mk \<Rightarrow> Inr (mk, hsh (map a_term args), length mk, None))"

text \<open>\<^verbatim>\<open>x[0]\<close> and \<^verbatim>\<open>x[1]\<close> of an argument, which is a tuple or a string.\<close>

definition arg_0 :: "arg \<Rightarrow> error + string" where
  "arg_0 a = (case a of
                Valued t v opr \<Rightarrow> Inr t
              | Bare s \<Rightarrow> (case s of [] \<Rightarrow> Inl IndexError | c # _ \<Rightarrow> Inr [c]))"

definition arg_1 :: "arg \<Rightarrow> error + rvalue" where
  "arg_1 a = (case a of
                Valued t v opr \<Rightarrow> Inr (Num v)
              | Bare s \<Rightarrow> (case s of c # d # _ \<Rightarrow> Inr (Chr d) | _ \<Rightarrow> Inl IndexError))"

text \<open>\<^verbatim>\<open>RelationFunc.__init__\<close>.\<close>

definition RelationFunc_init ::
  "(string list \<Rightarrow> int) \<Rightarrow> string \<Rightarrow> ast_arg list \<Rightarrow> error + func" where
  "RelationFunc_init hsh fnc args =
     (case LogFunction_init hsh args of
        Inl e \<Rightarrow> Inl e
      | Inr (mk, args_id, arity, dates) \<Rightarrow>
          (case mk of
             [] \<Rightarrow> Inl IndexError
           | a0 # _ \<Rightarrow>
               (case arg_1 a0 of
                  Inl e \<Rightarrow> Inl e
                | Inr v \<Rightarrow>
                    Inr \<lparr>f_func = fnc, f_args = mk, f_args_ID = args_id,
                          f_arity = arity, f_value = v, f_dates = dates\<rparr>)))"

text \<open>\<^verbatim>\<open>LogFunction.get_args\<close>: the names of the arguments.\<close>

definition arg_name :: "arg \<Rightarrow> string" where
  "arg_name a = (case a of Valued t v opr \<Rightarrow> t | Bare s \<Rightarrow> s)"

definition get_args :: "func \<Rightarrow> string list" where
  "get_args f = map arg_name (f_args f)"

text \<open>
  \<^verbatim>\<open>RelationFunc.chk_args_eq\<close>: \<open>True\<close> when comparable; the tuple that describes
  the mismatch is \<open>False\<close> here. The loop runs over \<^verbatim>\<open>self.args\<close> and reads
  \<^verbatim>\<open>other.args[x]\<close>, in range because the arities agree.
\<close>

fun chk_args_loop :: "arg list \<Rightarrow> arg list \<Rightarrow> error + bool" where
  "chk_args_loop [] os = Inr True"
| "chk_args_loop (a # as) [] = Inl IndexError"
| "chk_args_loop (a # as) (b # os) =
     (case a of
        Valued t v opr \<Rightarrow>
          (case arg_0 b of
             Inl e \<Rightarrow> Inl e
           | Inr t' \<Rightarrow> if t' \<noteq> t then Inr False else chk_args_loop as os)
      | Bare s \<Rightarrow> if b \<noteq> Bare s then Inr False else chk_args_loop as os)"

definition chk_args_eq :: "func \<Rightarrow> func \<Rightarrow> error + bool" where
  "chk_args_eq self other =
     (if f_arity other \<noteq> f_arity self then Inr False
      else if f_func other \<noteq> f_func self then Inr False
      else chk_args_loop (f_args self) (f_args other))"

text \<open>
  \<^verbatim>\<open>RelationFunc.__eq__\<close>. The loop overwrites \<^verbatim>\<open>result\<close> at every tuple argument;
  \<open>None\<close> is the unbound local. A number never equals a character, and ordering the
  two is a TypeError.
\<close>

definition rvalue_gt :: "real \<Rightarrow> rvalue \<Rightarrow> error + bool" where
  "rvalue_gt x y = (case y of Num v \<Rightarrow> Inr (x > v) | Chr c \<Rightarrow> Inl TypeError)"

definition rvalue_lt :: "real \<Rightarrow> rvalue \<Rightarrow> error + bool" where
  "rvalue_lt x y = (case y of Num v \<Rightarrow> Inr (x < v) | Chr c \<Rightarrow> Inl TypeError)"

fun eq_loop :: "arg list \<Rightarrow> arg list \<Rightarrow> bool option \<Rightarrow> error + bool option" where
  "eq_loop [] os res = Inr res"
| "eq_loop (a # as) [] res =
     (case a of Valued t v opr \<Rightarrow> Inl IndexError | Bare s \<Rightarrow> eq_loop as [] res)"
| "eq_loop (a # as) (b # os) res =
     (case a of
        Bare s \<Rightarrow> eq_loop as os res
      | Valued t v opr \<Rightarrow>
          if opr = ''='' then
            (case arg_1 b of
               Inl e \<Rightarrow> Inl e
             | Inr ov \<Rightarrow> eq_loop as os (Some (\<not> (Num v \<noteq> ov))))
          else if opr = ''>'' then
            (case arg_1 b of
               Inl e \<Rightarrow> Inl e
             | Inr ov \<Rightarrow>
                 (case rvalue_gt v ov of
                    Inl e \<Rightarrow> Inl e
                  | Inr g \<Rightarrow> eq_loop as os (Some (\<not> g))))
          else if opr = ''<'' then
            (case arg_1 b of
               Inl e \<Rightarrow> Inl e
             | Inr ov \<Rightarrow>
                 (case rvalue_lt v ov of
                    Inl e \<Rightarrow> Inl e
                  | Inr l \<Rightarrow> eq_loop as os (Some (\<not> l))))
          else eq_loop as os (Some True))"

definition RelationFunc_eq :: "nat \<Rightarrow> func \<Rightarrow> func \<Rightarrow> error + bool" where
  "RelationFunc_eq now self other =
     (case chk_args_eq self other of
        Inl e \<Rightarrow> Inl e
      | Inr False \<Rightarrow> Inl NotCompFuncError
      | Inr True \<Rightarrow>
          (case eq_loop (f_args self) (f_args other) None of
             Inl e \<Rightarrow> Inl e
           | Inr res \<Rightarrow>
               if eval_time_truth now (f_dates self) (f_dates other) = True
               then (case res of
                       None \<Rightarrow> Inl UnboundLocalError
                     | Some r \<Rightarrow> Inr r)
               else Inr False))"

section \<open>The knowledge store (kblogic.py)\<close>

text \<open>
  An \<^verbatim>\<open>Individual\<close> holds its membership atoms in the list \<^verbatim>\<open>categ\<close> and its
  relation atoms in the dictionary \<^verbatim>\<open>relations\<close>, from the name of the relation to a
  list of atoms. A \<^verbatim>\<open>Category\<close> gets the attributes \<^verbatim>\<open>parents\<close>,
  \<^verbatim>\<open>relations\<close> and \<^verbatim>\<open>type_\<close> only when they are first written, so they are
  optional here; \<^verbatim>\<open>Relation\<close> is the subclass whose \<^verbatim>\<open>add_rel\<close> is a property
  that cannot be called. The opaque \<^verbatim>\<open>id\<close> and the \<^verbatim>\<open>cog\<close> index of sentences
  play no part in what follows and are left out. Atoms are values: the source files one
  relation object under every owner named by its arguments, and no method of the store
  changes an atom that it holds, so every owner holds a copy here.
\<close>

record individual =
  i_name :: string
  i_categ :: "pred list"
  i_relations :: "string \<rightharpoonup> func list"

record category =
  c_name :: string
  c_is_relation :: bool
  c_type :: "string option"
  c_parents :: "pred list option"
  c_relations :: "(string \<rightharpoonup> func list) option"

record representation =
  individuals :: "string \<rightharpoonup> individual"
  classes :: "string \<rightharpoonup> category"

definition Individual_init :: "string \<Rightarrow> individual" where
  "Individual_init n = \<lparr>i_name = n, i_categ = [], i_relations = Map.empty\<rparr>"

definition Category_init :: "string \<Rightarrow> category" where
  "Category_init n =
     \<lparr>c_name = n, c_is_relation = False, c_type = None, c_parents = None,
      c_relations = None\<rparr>"

definition Relation_init :: "string \<Rightarrow> category" where
  "Relation_init n = (Category_init n)\<lparr>c_is_relation := True\<rparr>"

definition Representation_init :: representation where
  "Representation_init = \<lparr>individuals = Map.empty, classes = Map.empty\<rparr>"

subsection \<open>Membership atoms of one owner\<close>

text \<open>\<^verbatim>\<open>ctg_rec.index(fact.parent)\<close>: the first position with that category.\<close>

fun ctg_rec_index :: "pred list \<Rightarrow> string \<Rightarrow> nat option" where
  "ctg_rec_index [] c = None"
| "ctg_rec_index (f # fs) c =
     (if p_parent f = c then Some 0 else map_option Suc (ctg_rec_index fs c))"

text \<open>
  The body shared by \<^verbatim>\<open>Individual.add_ctg\<close> and \<^verbatim>\<open>Category.add_ctg\<close>: the
  atom is appended when its category is new. Otherwise the stored atom of that category
  is asked for its method \<^verbatim>\<open>update\<close>, as \<^verbatim>\<open>self.categ[idx].update(fact)\<close>. No
  class of atoms defines that method (\<^verbatim>\<open>GroundedTerm\<close>, \<^verbatim>\<open>FreeTerm\<close>,
  \<^verbatim>\<open>LogPredicate\<close> and the metaclass \<^verbatim>\<open>MetaForAtoms\<close> have no \<^verbatim>\<open>update\<close>
  and no \<^verbatim>\<open>__getattr__\<close>), so the lookup of the attribute raises AttributeError and
  the list stays as it was.
\<close>

definition add_ctg_list :: "pred list \<Rightarrow> pred \<Rightarrow> error + pred list" where
  "add_ctg_list categ fct =
     (case ctg_rec_index categ (p_parent fct) of
        None \<Rightarrow> Inr (categ @ [fct])
      | Some idx \<Rightarrow> Inl AttributeError)"

definition Individual_add_ctg :: "individual \<Rightarrow> pred \<Rightarrow> error + individual" where
  "Individual_add_ctg ind fct =
     (case add_ctg_list (i_categ ind) fct of
        Inl e \<Rightarrow> Inl e
      | Inr categ \<Rightarrow> Inr (ind\<lparr>i_categ := categ\<rparr>))"

definition Category_add_ctg :: "category \<Rightarrow> pred \<Rightarrow> error + category" where
  "Category_add_ctg c fct =
     (case c_parents c of
        None \<Rightarrow> Inr (c\<lparr>c_parents := Some [fct]\<rparr>)
      | Some ps \<Rightarrow>
          (case add_ctg_list ps fct of
             Inl e \<Rightarrow> Inl e
           | Inr ps' \<Rightarrow> Inr (c\<lparr>c_parents := Some ps'\<rparr>)))"

text \<open>
  \<^verbatim>\<open>test_ctg\<close>: the first stored atom of the category is compared with the query,
  the query on the left of \<^verbatim>\<open>==\<close>.
\<close>

fun first_ctg :: "pred list \<Rightarrow> string \<Rightarrow> pred option" where
  "first_ctg [] c = None"
| "first_ctg (f # fs) c = (if p_parent f = c then Some f else first_ctg fs c)"

definition test_ctg_list :: "nat \<Rightarrow> pred list \<Rightarrow> pred \<Rightarrow> tri" where
  "test_ctg_list now categ p =
     (case first_ctg categ (p_parent p) of
        None \<Rightarrow> None
      | Some c \<Rightarrow> if pred_eq now p c then Some True else Some False)"

definition Individual_test_ctg :: "nat \<Rightarrow> individual \<Rightarrow> pred \<Rightarrow> tri" where
  "Individual_test_ctg now ind p = test_ctg_list now (i_categ ind) p"

definition Category_test_ctg :: "nat \<Rightarrow> category \<Rightarrow> pred \<Rightarrow> tri" where
  "Category_test_ctg now c p =
     (case c_parents c of None \<Rightarrow> None | Some ps \<Rightarrow> test_ctg_list now ps p)"

subsection \<open>Relation atoms of one owner\<close>

text \<open>
  The loop of \<^verbatim>\<open>add_rel\<close> over an existing bucket: the first atom that
  \<^verbatim>\<open>chk_args_eq\<close> accepts is asked for its method \<^verbatim>\<open>update\<close>, as
  \<^verbatim>\<open>rel.update(func)\<close>. Neither \<^verbatim>\<open>RelationFunc\<close> nor \<^verbatim>\<open>LogFunction\<close>
  defines it, so the lookup raises AttributeError. The loop has no other branch: when no
  stored atom is accepted it ends without an error. The loop gives the error that leaves
  it, if any; the bucket is never written.
\<close>

fun add_rel_loop :: "func list \<Rightarrow> func \<Rightarrow> error option" where
  "add_rel_loop [] f = None"
| "add_rel_loop (rel # rels) f =
     (case chk_args_eq rel f of
        Inl e \<Rightarrow> Some e
      | Inr True \<Rightarrow> Some AttributeError
      | Inr False \<Rightarrow> add_rel_loop rels f)"

definition add_rel_map ::
  "(string \<rightharpoonup> func list) \<Rightarrow> func \<Rightarrow> error + (string \<rightharpoonup> func list)" where
  "add_rel_map rels f =
     (case rels (f_func f) of
        None \<Rightarrow> Inr (rels(f_func f \<mapsto> [f]))
      | Some bucket \<Rightarrow>
          (case add_rel_loop bucket f of
             Some e \<Rightarrow> Inl e
           | None \<Rightarrow> Inr rels))"

definition Individual_add_rel :: "individual \<Rightarrow> func \<Rightarrow> error + individual" where
  "Individual_add_rel ind f =
     (case add_rel_map (i_relations ind) f of
        Inl e \<Rightarrow> Inl e
      | Inr m \<Rightarrow> Inr (ind\<lparr>i_relations := m\<rparr>))"

definition Category_add_rel :: "category \<Rightarrow> func \<Rightarrow> error + category" where
  "Category_add_rel c f =
     (if c_is_relation c then Inl TypeError
      else case c_relations c of
        None \<Rightarrow> Inr (c\<lparr>c_relations := Some [f_func f \<mapsto> [f]]\<rparr>)
      | Some rels \<Rightarrow>
          (case add_rel_map rels f of
             Inl e \<Rightarrow> Inl e
           | Inr m \<Rightarrow> Inr (c\<lparr>c_relations := Some m\<rparr>)))"

text \<open>
  \<^verbatim>\<open>test_rel\<close>: the first stored atom with the args-hash of the query decides,
  the query on the left of \<^verbatim>\<open>==\<close>.
\<close>

fun test_rel_loop :: "nat \<Rightarrow> func list \<Rightarrow> func \<Rightarrow> error + tri" where
  "test_rel_loop now [] q = Inr None"
| "test_rel_loop now (f # fs) q =
     (if f_args_ID f = f_args_ID q
      then (case RelationFunc_eq now q f of
              Inl e \<Rightarrow> Inl e
            | Inr b \<Rightarrow> if b then Inr (Some True) else Inr (Some False))
      else test_rel_loop now fs q)"

definition test_rel_map :: "nat \<Rightarrow> (string \<rightharpoonup> func list) \<Rightarrow> func \<Rightarrow> error + tri" where
  "test_rel_map now rels q =
     (case rels (f_func q) of
        None \<Rightarrow> Inr None
      | Some funcs \<Rightarrow> test_rel_loop now funcs q)"

definition Individual_test_rel :: "nat \<Rightarrow> individual \<Rightarrow> func \<Rightarrow> error + tri" where
  "Individual_test_rel now ind q = test_rel_map now (i_relations ind) q"

definition Category_test_rel :: "nat \<Rightarrow> category \<Rightarrow> func \<Rightarrow> error + tri" where
  "Category_test_rel now c q =
     (case c_relations c of None \<Rightarrow> Inr None | Some rels \<Rightarrow> test_rel_map now rels q)"

subsection \<open>The representation\<close>

definition has_dollar :: "string \<Rightarrow> bool" where
  "has_dollar s = (CHR ''$'' \<in> set s)"

definition class_init :: "string \<Rightarrow> category" where
  "class_init n = (Category_init n)\<lparr>c_type := Some ''class''\<rparr>"

text \<open>
  \<^verbatim>\<open>Representation.up_memb\<close>. An exception of \<^verbatim>\<open>add_ctg\<close> leaves the method
  before anything is written, so the store is then the one of the call. The stored atom
  that the method can return (\<^verbatim>\<open>return_val\<close>) is not asked for by \<^verbatim>\<open>tell\<close>.
\<close>

definition up_memb :: "representation \<Rightarrow> pred \<Rightarrow> error + representation" where
  "up_memb r p =
     (let subject = p_term p; categ = p_parent p;
          res =
            (if individuals r subject = None \<and> has_dollar subject
             then (case Individual_add_ctg (Individual_init subject) p of
                     Inl e \<Rightarrow> Inl e
                   | Inr ind \<Rightarrow> Inr (r\<lparr>individuals := (individuals r)(subject \<mapsto> ind)\<rparr>))
             else if has_dollar subject
             then (case Individual_add_ctg (the (individuals r subject)) p of
                     Inl e \<Rightarrow> Inl e
                   | Inr ind \<Rightarrow> Inr (r\<lparr>individuals := (individuals r)(subject \<mapsto> ind)\<rparr>))
             else case classes r subject of
                    Some c \<Rightarrow>
                      (case Category_add_ctg c p of
                         Inl e \<Rightarrow> Inl e
                       | Inr c' \<Rightarrow> Inr (r\<lparr>classes := (classes r)(subject \<mapsto> c')\<rparr>))
                  | None \<Rightarrow>
                      (case Category_add_ctg (class_init subject) p of
                         Inl e \<Rightarrow> Inl e
                       | Inr c' \<Rightarrow> Inr (r\<lparr>classes := (classes r)(subject \<mapsto> c')\<rparr>)))
      in case res of
           Inl e \<Rightarrow> Inl e
         | Inr r1 \<Rightarrow>
             Inr (if classes r1 categ = None
                  then r1\<lparr>classes := (classes r1)(categ \<mapsto> class_init categ)\<rparr>
                  else r1))"

text \<open>
  \<^verbatim>\<open>Representation.up_rel\<close>: one step of the loop over the argument names, then the
  loop. An exception leaves the loop; the store keeps what the earlier steps wrote.
\<close>

definition add_relation_class :: "representation \<Rightarrow> string \<Rightarrow> representation" where
  "add_relation_class r relation =
     (if classes r relation = None
      then r\<lparr>classes := (classes r)(relation \<mapsto> Relation_init relation)\<rparr>
      else r)"

definition up_rel_step ::
  "func \<Rightarrow> representation \<Rightarrow> string \<Rightarrow> error + representation" where
  "up_rel_step f r subject =
     (if has_dollar subject then
        (case individuals r subject of
           None \<Rightarrow>
             (case Individual_add_rel (Individual_init subject) f of
                Inl e \<Rightarrow> Inl e
              | Inr ind \<Rightarrow>
                  Inr (add_relation_class
                         (r\<lparr>individuals := (individuals r)(subject \<mapsto> ind)\<rparr>) (f_func f)))
         | Some ind0 \<Rightarrow>
             (case Individual_add_rel ind0 f of
                Inl e \<Rightarrow> Inl e
              | Inr ind \<Rightarrow>
                  Inr (add_relation_class
                         (r\<lparr>individuals := (individuals r)(subject \<mapsto> ind)\<rparr>) (f_func f))))
      else
        (case classes r subject of
           None \<Rightarrow>
             (case Category_add_rel (Category_init subject) f of
                Inl e \<Rightarrow> Inl e
              | Inr c \<Rightarrow>
                  Inr (add_relation_class
                         (r\<lparr>classes := (classes r)(subject \<mapsto> c)\<rparr>) (f_func f)))
         | Some c0 \<Rightarrow>
             (case Category_add_rel c0 f of
                Inl e \<Rightarrow> Inl e
              | Inr c \<Rightarrow>
                  Inr (add_relation_class
                         (r\<lparr>classes := (classes r)(subject \<mapsto> c)\<rparr>) (f_func f)))))"

fun up_rel_loop ::
  "func \<Rightarrow> representation \<Rightarrow> string list \<Rightarrow> error option \<times> representation" where
  "up_rel_loop f r [] = (None, r)"
| "up_rel_loop f r (subject # rest) =
     (case up_rel_step f r subject of
        Inl e \<Rightarrow> (Some e, r)
      | Inr r' \<Rightarrow> up_rel_loop f r' rest)"

definition up_rel :: "representation \<Rightarrow> func \<Rightarrow> error option \<times> representation" where
  "up_rel r f = up_rel_loop f r (get_args f)"

text \<open>
  \<^verbatim>\<open>Representation.test_pred\<close>. The kind of the atom selects the branch. The first
  character of the subject is read outside the \<^verbatim>\<open>try\<close>; the lookup and the test run
  inside a bare \<^verbatim>\<open>except\<close> that answers \<^verbatim>\<open>None\<close>. For a membership atom both
  branches of the test on \<^verbatim>\<open>$\<close> read \<^verbatim>\<open>self.individuals\<close>. For a relation atom the
  loop over the arguments returns in its first round.
\<close>

datatype atom = Pred pred | Func func

definition test_pred :: "nat \<Rightarrow> representation \<Rightarrow> atom \<Rightarrow> error + tri" where
  "test_pred now r a =
     (case a of
        Pred p \<Rightarrow>
          (let subject = p_term p in
           case subject of
             [] \<Rightarrow> Inl IndexError
           | c0 # _ \<Rightarrow>
               if c0 = CHR ''$'' then
                 (case individuals r subject of
                    None \<Rightarrow> Inr None
                  | Some ind \<Rightarrow> Inr (Individual_test_ctg now ind p))
               else
                 (case individuals r subject of
                    None \<Rightarrow> Inr None
                  | Some ind \<Rightarrow> Inr (Individual_test_ctg now ind p)))
      | Func q \<Rightarrow>
          (case get_args q of
             [] \<Rightarrow> Inr None
           | subject # _ \<Rightarrow>
               (case subject of
                  [] \<Rightarrow> Inl IndexError
                | c0 # _ \<Rightarrow>
                    if c0 = CHR ''$'' then
                      (case individuals r subject of
                         None \<Rightarrow> Inr None
                       | Some ind \<Rightarrow>
                           (case Individual_test_rel now ind q of
                              Inl e \<Rightarrow> Inr None
                            | Inr t \<Rightarrow> Inr t))
                    else
                      (case classes r subject of
                         None \<Rightarrow> Inr None
                       | Some c \<Rightarrow>
                           (case Category_test_rel now c q of
                              Inl e \<Rightarrow> Inr None
                            | Inr t \<Rightarrow> Inr t)))))"

subsection \<open>tell\<close>

text \<open>
  \<^verbatim>\<open>logic_parser\<close> on the assertion statements of a block: every statement is a list
  of assertions; a membership becomes a grounded term when telling and a free term when
  asking, a relation a \<^verbatim>\<open>RelationFunc\<close>. The first constructor that raises ends the
  parse.
\<close>

record parse_results =
  assert_memb :: "pred list"
  assert_rel :: "func list"

definition make_fact :: "string \<Rightarrow> string \<Rightarrow> ast_arg list \<Rightarrow> error + pred" where
  "make_fact f_type klass args =
     (if f_type = ''grounded_term'' then GroundedTerm_init klass args
      else if f_type = ''free_term'' then FreeTerm_init klass args
      else Inl AssertionError)"

fun parse_assertions ::
  "(string list \<Rightarrow> int) \<Rightarrow> bool \<Rightarrow> parse_results \<Rightarrow> assertion list \<Rightarrow> error + parse_results" where
  "parse_assertions hsh tell_state res [] = Inr res"
| "parse_assertions hsh tell_state res (KlassA k args # rest) =
     (case make_fact (if tell_state then ''grounded_term'' else ''free_term'') k args of
        Inl e \<Rightarrow> Inl e
      | Inr memb \<Rightarrow>
          parse_assertions hsh tell_state (res\<lparr>assert_memb := assert_memb res @ [memb]\<rparr>) rest)"
| "parse_assertions hsh tell_state res (FuncA f args # rest) =
     (case RelationFunc_init hsh f args of
        Inl e \<Rightarrow> Inl e
      | Inr fn \<Rightarrow>
          parse_assertions hsh tell_state (res\<lparr>assert_rel := assert_rel res @ [fn]\<rparr>) rest)"

definition logic_parser ::
  "(string list \<Rightarrow> int) \<Rightarrow> bool \<Rightarrow> assertion list list \<Rightarrow> error + parse_results" where
  "logic_parser hsh tell_state ast =
     parse_assertions hsh tell_state \<lparr>assert_memb = [], assert_rel = []\<rparr> (concat ast)"

text \<open>
  \<^verbatim>\<open>Representation.tell\<close> on a block of assertion statements: the whole block is
  parsed first, then every membership is stored with \<^verbatim>\<open>up_memb\<close> and every relation
  with \<^verbatim>\<open>up_rel\<close>. The first exception ends the call, and the store keeps what
  was written before it. The belief maintenance module that is notified after each atom
  is not part of the sources; it keeps records of its own and does not write to
  \<^verbatim>\<open>individuals\<close> or \<^verbatim>\<open>classes\<close>. Rule and cognition statements are not covered.
\<close>

fun up_memb_all ::
  "representation \<Rightarrow> pred list \<Rightarrow> error option \<times> representation" where
  "up_memb_all r [] = (None, r)"
| "up_memb_all r (p # ps) =
     (case up_memb r p of
        Inl e \<Rightarrow> (Some e, r)
      | Inr r' \<Rightarrow> up_memb_all r' ps)"

fun up_rel_all ::
  "representation \<Rightarrow> func list \<Rightarrow> error option \<times> representation" where
  "up_rel_all r [] = (None, r)"
| "up_rel_all r (f # fs) =
     (case up_rel r f of
        (Some e, r') \<Rightarrow> (Some e, r')
      | (None, r') \<Rightarrow> up_rel_all r' fs)"

definition tell ::
  "(string list \<Rightarrow> int) \<Rightarrow> representation \<Rightarrow> assertion list list
     \<Rightarrow> error option \<times> representation" where
  "tell hsh r ast =
     (case logic_parser hsh True ast of
        Inl e \<Rightarrow> (Some e, r)
      | Inr res \<Rightarrow>
          (case up_memb_all r (assert_memb res) of
             (Some e, r') \<Rightarrow> (Some e, r')
           | (None, r') \<Rightarrow> up_rel_all r' (assert_rel res)))"

text \<open>A sequence of calls of \<^verbatim>\<open>tell\<close>; a call that raises leaves the store as
  the exception found it, and the next call goes on from there.\<close>

fun tells ::
  "(string list \<Rightarrow> int) \<Rightarrow> representation \<Rightarrow> assertion list list list
     \<Rightarrow> representation" where
  "tells hsh r [] = r"
| "tells hsh r (ast # bs) = tells hsh (snd (tell hsh r ast)) bs"

subsection \<open>ask\<close>







section \<open>Sentences (parser.py)\<close>

text \<open>
  The particles of a sentence form a binary tree: \<^verbatim>\<open>traverse_ast\<close> appends the
  particle of \<^verbatim>\<open>lhs\<close> and then the one of \<^verbatim>\<open>rhs\<close> to \<^verbatim>\<open>next\<close>. The leaves
  carry membership or relation atoms (the atoms of time calculus are not covered).
\<close>

datatype particle =
    LogicAtom atom
  | LogicIndCond particle particle
  | LogicEquivalence particle particle
  | LogicImplication particle particle
  | LogicConjunction particle particle
  | LogicDisjunction particle particle

text \<open>
  \<^verbatim>\<open>LogFunction.substitute\<close> with a list: a copy whose argument names are the given
  ones, position by position, with the hash of the new names.
\<close>

definition rename_arg :: "arg \<Rightarrow> string \<Rightarrow> arg" where
  "rename_arg a n = (case a of Valued t v opr \<Rightarrow> Valued n v opr | Bare s \<Rightarrow> Bare n)"

definition func_substitute :: "(string list \<Rightarrow> int) \<Rightarrow> func \<Rightarrow> string list \<Rightarrow> func" where
  "func_substitute hsh f names =
     f\<lparr>f_args_ID := hsh names, f_args := map2 rename_arg (f_args f) names\<rparr>"

text \<open>\<^verbatim>\<open>LogicAtom.isvar\<close>: the constant assigned to a variable, or the name itself.\<close>

definition isvar :: "(string \<rightharpoonup> string) \<Rightarrow> string \<Rightarrow> string" where
  "isvar assigned trm = (case assigned trm of Some c \<Rightarrow> c | None \<Rightarrow> trm)"

text \<open>
  \<^verbatim>\<open>LogicAtom.resolve\<close>: the value handed to \<^verbatim>\<open>parent.return_value\<close>. A relation
  atom is looked up under its first argument, and a missing owner is a KeyError; a
  membership atom is looked up under its subject, where a missing owner is caught.
  Only free terms have \<^verbatim>\<open>substitute\<close>.
\<close>

definition LogicAtom_resolve ::
  "(string list \<Rightarrow> int) \<Rightarrow> nat \<Rightarrow> representation \<Rightarrow> (string \<rightharpoonup> string) \<Rightarrow> atom \<Rightarrow> error + tri" where
  "LogicAtom_resolve hsh now ag assigned a =
     (case a of
        Func f \<Rightarrow>
          (let args = map (isvar assigned) (get_args f);
               test = func_substitute hsh f args
           in case args of
                [] \<Rightarrow> Inl IndexError
              | a0 # _ \<Rightarrow>
                  (case a0 of
                     [] \<Rightarrow> Inl IndexError
                   | c0 # _ \<Rightarrow>
                       if c0 = CHR ''$'' then
                         (case individuals ag a0 of
                            None \<Rightarrow> Inl KeyError
                          | Some ind \<Rightarrow> Individual_test_rel now ind test)
                       else
                         (case classes ag a0 of
                            None \<Rightarrow> Inl KeyError
                          | Some c \<Rightarrow> Category_test_rel now c test)))
      | Pred p \<Rightarrow>
          (let sbj = isvar assigned (p_term p) in
           if p_class p \<noteq> FreeTerm then Inl AttributeError
           else
             (let test = FreeTerm_substitute p sbj in
              case sbj of
                [] \<Rightarrow> Inl IndexError
              | c0 # _ \<Rightarrow>
                  if c0 \<noteq> CHR ''$'' then
                    (case classes ag sbj of
                       None \<Rightarrow> Inr None
                     | Some c \<Rightarrow> Inr (Category_test_ctg now c test))
                  else
                    (case individuals ag sbj of
                       None \<Rightarrow> Inr None
                     | Some ind \<Rightarrow> Inr (Individual_test_ctg now ind test)))))"

text \<open>
  The tests the connectives make on the two collected results. \<^verbatim>\<open>a and b\<close> on
  Python values is \<open>a\<close> when \<open>a\<close> is false or \<^verbatim>\<open>None\<close>, and \<open>b\<close> otherwise.
\<close>

definition py_and :: "tri \<Rightarrow> tri \<Rightarrow> tri" where
  "py_and a b = (if a = Some True then b else a)"

definition implication_truth :: "tri \<Rightarrow> tri \<Rightarrow> tri" where
  "implication_truth r0 r1 =
     (if py_and r0 r1 = None then None
      else if r1 = Some False \<and> r0 = Some True then Some False
      else Some True)"

definition equivalence_truth :: "tri \<Rightarrow> tri \<Rightarrow> tri" where
  "equivalence_truth r0 r1 =
     (if r0 = None \<or> r1 = None then None
      else if r0 = r1 then Some True
      else Some False)"

definition conjunction_truth :: "tri \<Rightarrow> tri \<Rightarrow> tri" where
  "conjunction_truth r0 r1 =
     (if r0 = Some True \<and> r1 = Some True then Some True
      else if r0 = Some False \<or> r1 = Some False then Some False
      else None)"

text \<open>
  In \<^verbatim>\<open>LogicDisjunction.resolve\<close> the second test is \<^verbatim>\<open>all\<close> of a list that
  holds only \<^verbatim>\<open>True\<close>, so it is always met.
\<close>

definition disjunction_truth :: "tri \<Rightarrow> tri \<Rightarrow> tri" where
  "disjunction_truth r0 r1 =
     (if r0 = Some True \<or> r1 = Some True then Some True
      else Some False)"

text \<open>
  \<^verbatim>\<open>resolve\<close> of a particle: the children are resolved from left to right, each
  appends its answer to \<^verbatim>\<open>_results\<close> of the parent, and the answer of the node goes
  to its own parent. An indicative conditional raises when it is resolved.
\<close>

fun resolve ::
  "(string list \<Rightarrow> int) \<Rightarrow> nat \<Rightarrow> representation \<Rightarrow> (string \<rightharpoonup> string) \<Rightarrow> particle \<Rightarrow> error + tri" where
  "resolve hsh now ag assigned (LogicAtom a) = LogicAtom_resolve hsh now ag assigned a"
| "resolve hsh now ag assigned (LogicIndCond l r) = Inl AssertionError"
| "resolve hsh now ag assigned (LogicEquivalence l r) =
     (case resolve hsh now ag assigned l of
        Inl e \<Rightarrow> Inl e
      | Inr r0 \<Rightarrow>
          (case resolve hsh now ag assigned r of
             Inl e \<Rightarrow> Inl e
           | Inr r1 \<Rightarrow> Inr (equivalence_truth r0 r1)))"
| "resolve hsh now ag assigned (LogicImplication l r) =
     (case resolve hsh now ag assigned l of
        Inl e \<Rightarrow> Inl e
      | Inr r0 \<Rightarrow>
          (case resolve hsh now ag assigned r of
             Inl e \<Rightarrow> Inl e
           | Inr r1 \<Rightarrow> Inr (implication_truth r0 r1)))"
| "resolve hsh now ag assigned (LogicConjunction l r) =
     (case resolve hsh now ag assigned l of
        Inl e \<Rightarrow> Inl e
      | Inr r0 \<Rightarrow>
          (case resolve hsh now ag assigned r of
             Inl e \<Rightarrow> Inl e
           | Inr r1 \<Rightarrow> Inr (conjunction_truth r0 r1)))"
| "resolve hsh now ag assigned (LogicDisjunction l r) =
     (case resolve hsh now ag assigned l of
        Inl e \<Rightarrow> Inl e
      | Inr r0 \<Rightarrow>
          (case resolve hsh now ag assigned r of
             Inl e \<Rightarrow> Inl e
           | Inr r1 \<Rightarrow> Inr (disjunction_truth r0 r1)))"

text \<open>
  \<^verbatim>\<open>LogicImplication.solve_proof\<close>, the same test at the top of a sentence: the
  answer is written to \<^verbatim>\<open>proof.result\<close>.
\<close>

definition LogicImplication_solve_proof ::
  "(string list \<Rightarrow> int) \<Rightarrow> nat \<Rightarrow> representation \<Rightarrow> (string \<rightharpoonup> string) \<Rightarrow> particle \<Rightarrow> particle
     \<Rightarrow> error + tri" where
  "LogicImplication_solve_proof hsh now ag assigned l r =
     (case resolve hsh now ag assigned l of
        Inl e \<Rightarrow> Inl e
      | Inr r0 \<Rightarrow>
          (case resolve hsh now ag assigned r of
             Inl e \<Rightarrow> Inl e
           | Inr r1 \<Rightarrow> Inr (implication_truth r0 r1)))"

text \<open>
  A sentence. Modelled from the spec: the attribute \<^verbatim>\<open>created\<close>, which the sorted
  lists of the inference read as \<^verbatim>\<open>rule.created\<close>, is set nowhere in the sources;
  the specification gives every sentence a creation timestamp.
\<close>

record sentence =
  start :: particle
  var_order :: "string list option"
  created :: nat

definition cond :: "particle \<Rightarrow> string" where
  "cond p = (case p of
               LogicAtom a \<Rightarrow> '':predicate:''
             | LogicIndCond l r \<Rightarrow> ''|>''
             | LogicEquivalence l r \<Rightarrow> ''<=>''
             | LogicImplication l r \<Rightarrow> ''=>''
             | LogicConjunction l r \<Rightarrow> ''&&''
             | LogicDisjunction l r \<Rightarrow> ''||'')"

text \<open>\<^verbatim>\<open>get_all_preds\<close>: the atoms in the order of \<^verbatim>\<open>particles\<close>, which is the
  order in which \<^verbatim>\<open>traverse_ast\<close> made them.\<close>

fun get_all_preds :: "particle \<Rightarrow> atom list" where
  "get_all_preds (LogicAtom a) = [a]"
| "get_all_preds (LogicIndCond l r) = get_all_preds l @ get_all_preds r"
| "get_all_preds (LogicEquivalence l r) = get_all_preds l @ get_all_preds r"
| "get_all_preds (LogicImplication l r) = get_all_preds l @ get_all_preds r"
| "get_all_preds (LogicConjunction l r) = get_all_preds l @ get_all_preds r"
| "get_all_preds (LogicDisjunction l r) = get_all_preds l @ get_all_preds r"

text \<open>
  \<^verbatim>\<open>get_preds\<close> climbs from every atom to the nearest particle whose connective is
  in \<^verbatim>\<open>conds\<close> and keeps the atom when it came up through the wanted child.
  \<open>sides\<close> pairs every atom with the child it comes through (\<open>True\<close> for
  \<^verbatim>\<open>next[0]\<close>). The branch is the left one only for the string \<^verbatim>\<open>'l'\<close>.
\<close>

definition conds :: "string list" where
  "conds = [''|>'', ''=>'', ''<=>'']"

fun sides :: "bool \<Rightarrow> particle \<Rightarrow> (bool \<times> atom) list" where
  "sides side (LogicAtom a) = [(side, a)]"
| "sides side (LogicIndCond l r) = sides True l @ sides False r"
| "sides side (LogicEquivalence l r) = sides True l @ sides False r"
| "sides side (LogicImplication l r) = sides True l @ sides False r"
| "sides side (LogicConjunction l r) = sides side l @ sides side r"
| "sides side (LogicDisjunction l r) = sides side l @ sides side r"

definition get_preds :: "sentence \<Rightarrow> string \<Rightarrow> atom list" where
  "get_preds sent branch =
     (if cond (start sent) \<notin> set conds then get_all_preds (start sent)
      else map snd (filter (\<lambda>(side, a). if branch = ''l'' then side else \<not> side)
                      (sides True (start sent))))"

section \<open>Inference nodes (kblogic.py)\<close>

text \<open>
  \<^verbatim>\<open>InferNode\<close>: the rule, the name of the consequent, the names of the
  antecedents, and for every variable of the rule the names required of it.
\<close>

record infer_node =
  n_rule :: sentence
  n_const :: string
  n_ants :: "string list"
  n_subs :: "(string \<times> string set) list"

definition atom_name :: "atom \<Rightarrow> string" where
  "atom_name a = (case a of Func f \<Rightarrow> f_func f | Pred p \<Rightarrow> p_parent p)"

fun subs_add :: "(string \<times> string set) list \<Rightarrow> string \<Rightarrow> string \<Rightarrow> (string \<times> string set) list" where
  "subs_add [] v n = []"
| "subs_add ((k, s) # rest) v n =
     (if k = v then (k, insert n s) # rest else (k, s) # subs_add rest v n)"

fun subs_ants :: "(string \<times> string set) list \<Rightarrow> atom list \<Rightarrow> (string \<times> string set) list" where
  "subs_ants subs [] = subs"
| "subs_ants subs (Func f # ants) =
     subs_ants (foldl (\<lambda>sb v. subs_add sb v (f_func f)) subs (get_args f)) ants"
| "subs_ants subs (Pred p # ants) = subs_ants (subs_add subs (p_term p) (p_parent p)) ants"

definition InferNode_init :: "string list \<Rightarrow> atom list \<Rightarrow> string \<Rightarrow> sentence \<Rightarrow> infer_node" where
  "InferNode_init nc ants const rule =
     \<lparr>n_rule = rule, n_const = const, n_ants = nc,
      n_subs = subs_ants (case var_order rule of
                            Some vs \<Rightarrow> map (\<lambda>v. (v, {})) (rev (remdups (rev vs)))
                          | None \<Rightarrow> []) ants\<rparr>"

text \<open>
  \<^verbatim>\<open>SortedListWithKey.add\<close> with the key \<^verbatim>\<open>x.rule.created\<close>: the new node goes
  after every node whose key is not greater, so the list ascends from the oldest rule to
  the newest.
\<close>

fun sorted_add :: "infer_node \<Rightarrow> infer_node list \<Rightarrow> infer_node list" where
  "sorted_add x [] = [x]"
| "sorted_add x (y # ys) =
     (if created (n_rule x) < created (n_rule y) then x # y # ys else y # sorted_add x ys)"

text \<open>
  \<^verbatim>\<open>mk_node\<close> inside \<^verbatim>\<open>get_rules\<close>: one node for every atom of the branch, filed
  under the name of that atom.
\<close>

definition nodes_add :: "(string \<rightharpoonup> infer_node list) \<Rightarrow> infer_node \<Rightarrow> (string \<rightharpoonup> infer_node list)" where
  "nodes_add nodes node =
     (case nodes (n_const node) of
        Some ns \<Rightarrow> nodes(n_const node \<mapsto> sorted_add node ns)
      | None \<Rightarrow> nodes(n_const node \<mapsto> sorted_add node []))"

definition mk_node ::
  "(string \<rightharpoonup> infer_node list) \<Rightarrow> sentence \<Rightarrow> string list \<Rightarrow> atom list \<Rightarrow> string
     \<Rightarrow> (string \<rightharpoonup> infer_node list)" where
  "mk_node nodes sent nc preds pos =
     foldl (\<lambda>nd const. nodes_add nd (InferNode_init nc preds (atom_name const) sent))
       nodes (get_preds sent pos)"

text \<open>
  The loop of \<^verbatim>\<open>unify\<close> over the nodes of a name, \<^verbatim>\<open>for node in self.nodes[p]\<close>:
  the nodes in the order in which the loop takes them. The rule of a node is called on
  its candidate substitutions before the next node is taken.
\<close>

definition unify_nodes :: "(string \<rightharpoonup> infer_node list) \<Rightarrow> string \<Rightarrow> infer_node list" where
  "unify_nodes nodes p = (case nodes p of None \<Rightarrow> [] | Some ns \<Rightarrow> ns)"

subsection \<open>Grounding a free term\<close>

text \<open>
  \<^verbatim>\<open>GroundedTerm.__init__(self, pred, fromfree=False, **kwargs)\<close> on an atom object,
  as \<^verbatim>\<open>make_fact(pred, 'grounded_term', **kwargs)\<close> calls it. The keyword arguments
  of the call are an association list; only the keyword \<^verbatim>\<open>fromfree\<close> binds the
  parameter. Without it the constructor goes on to \<^verbatim>\<open>LogPredicate.__init__\<close>, which
  reads \<^verbatim>\<open>pred.args\<close>, an attribute that an atom object does not have.
\<close>

datatype kwval = KBool bool | KStr string

definition GroundedTerm_init_object :: "pred \<Rightarrow> (string \<times> kwval) list \<Rightarrow> error + pred" where
  "GroundedTerm_init_object p kwargs =
     (let fromfree = (case map_of kwargs ''fromfree'' of Some (KBool b) \<Rightarrow> b | _ \<Rightarrow> False)
      in if fromfree = True then
           (if p_class p \<noteq> FreeTerm then Inl AssertionError
            else case map_of kwargs ''sbj'' of
                   Some (KStr sbj) \<Rightarrow> Inr (GroundedTerm_fromfree p sbj)
                 | _ \<Rightarrow> Inl KeyError)
         else Inl AttributeError)"

text \<open>\<^verbatim>\<open>FreeTerm.substitute\<close> with \<^verbatim>\<open>ground=True\<close>, which passes
  \<^verbatim>\<open>{'fromfree': True, 'sbj': sbj}\<close>.\<close>

definition FreeTerm_substitute_ground :: "pred \<Rightarrow> string \<Rightarrow> error + pred" where
  "FreeTerm_substitute_ground p sbj =
     GroundedTerm_init_object p [(''fromfree'', KBool True), (''sbj'', KStr sbj)]"

text \<open>
  \<^verbatim>\<open>Inference.infer_facts\<close>, the branch for a subject that is a variable: for a
  candidate object \<^verbatim>\<open>obj\<close> of \<^verbatim>\<open>obj_dic\<close> the substitution \<^verbatim>\<open>subst\<close> is built
  first. A relation atom raises \<^verbatim>\<open>NotImplementedError\<close>; a membership atom is
  grounded with \<^verbatim>\<open>make_fact(pred, 'grounded_term', from_free=True, **{'sbj': obj})\<close>.
\<close>

definition infer_var_subst :: "atom \<Rightarrow> string \<Rightarrow> error + pred" where
  "infer_var_subst a obj =
     (case a of
        Func f \<Rightarrow> Inl NotImplementedError
      | Pred p \<Rightarrow> GroundedTerm_init_object p [(''from_free'', KBool True), (''sbj'', KStr obj)])"

section \<open>Invariants of the store\<close>

text \<open>A property of every list of membership atoms, and of every bucket of relation
  atoms, held by an individual or a class of the representation.\<close>

definition memb_inv :: "(string \<Rightarrow> pred list \<Rightarrow> bool) \<Rightarrow> representation \<Rightarrow> bool" where
  "memb_inv P r =
     ((\<forall>k ind. individuals r k = Some ind \<longrightarrow> P k (i_categ ind)) \<and>
      (\<forall>k c ps. classes r k = Some c \<longrightarrow> c_parents c = Some ps \<longrightarrow> P k ps))"

definition rel_inv :: "(string \<Rightarrow> func list \<Rightarrow> bool) \<Rightarrow> representation \<Rightarrow> bool" where
  "rel_inv Q r =
     ((\<forall>k ind n b. individuals r k = Some ind \<longrightarrow> i_relations ind n = Some b \<longrightarrow> Q n b) \<and>
      (\<forall>k c rels n b. classes r k = Some c \<longrightarrow> c_relations c = Some rels \<longrightarrow>
          rels n = Some b \<longrightarrow> Q n b))"

definition ind_keys_dollar :: "representation \<Rightarrow> bool" where
  "ind_keys_dollar r = (\<forall>k. individuals r k \<noteq> None \<longrightarrow> has_dollar k)"

definition pred_in_range :: "pred \<Rightarrow> bool" where
  "pred_in_range p = (0 \<le> p_value p \<and> p_value p \<le> 1)"

definition arg_in_range :: "arg \<Rightarrow> bool" where
  "arg_in_range a = (case a of Valued t v opr \<Rightarrow> 0 \<le> v \<and> v \<le> 1 | Bare s \<Rightarrow> True)"

definition rvalue_in_range :: "rvalue \<Rightarrow> bool" where
  "rvalue_in_range x = (case x of Num v \<Rightarrow> 0 \<le> v \<and> v \<le> 1 | Chr c \<Rightarrow> False)"

text \<open>An assertion whose value is illegal: the value of a membership is the one of its
  first argument; a relation may carry a value on every argument.\<close>

definition illegal_uval :: "ast_arg \<Rightarrow> bool" where
  "illegal_uval a = (case a_uval a of Some (opr, v) \<Rightarrow> v > 1 \<or> v < 0 | None \<Rightarrow> False)"

definition illegal_value :: "assertion \<Rightarrow> bool" where
  "illegal_value a =
     (case a of
        KlassA k args \<Rightarrow> (case args of [] \<Rightarrow> False | a0 # _ \<Rightarrow> illegal_uval a0)
      | FuncA f args \<Rightarrow> list_ex illegal_uval args)"

section \<open>Lemmas about the store\<close>

lemma eval_time_truth_True: "eval_time_truth now a b = True"
  by (simp add: eval_time_truth_def Let_def)

lemma ctg_rec_index_None: "ctg_rec_index ps c = None \<longleftrightarrow> c \<notin> p_parent ` set ps"
  by (induction ps) auto

lemma ctg_rec_index_Some:
  "ctg_rec_index ps c = Some i \<Longrightarrow> i < length ps \<and> p_parent (ps ! i) = c"
  by (induction ps arbitrary: i) (auto split: if_splits)

lemma add_ctg_list_Inr:
  "add_ctg_list ps f = Inr ps' \<longleftrightarrow> p_parent f \<notin> p_parent ` set ps \<and> ps' = ps @ [f]"
proof (cases "ctg_rec_index ps (p_parent f)")
  case None
  moreover from None have "p_parent f \<notin> p_parent ` set ps"
    by (simp add: ctg_rec_index_None)
  ultimately show ?thesis by (auto simp: add_ctg_list_def)
next
  case (Some i)
  have "p_parent f \<in> p_parent ` set ps"
    using ctg_rec_index_Some[OF Some] by (metis imageI nth_mem)
  then show ?thesis using Some by (simp add: add_ctg_list_def)
qed

lemma add_ctg_list_Inl:
  "add_ctg_list ps f = Inl e \<longleftrightarrow> p_parent f \<in> p_parent ` set ps \<and> e = AttributeError"
proof (cases "ctg_rec_index ps (p_parent f)")
  case None
  moreover from None have "p_parent f \<notin> p_parent ` set ps"
    by (simp add: ctg_rec_index_None)
  ultimately show ?thesis by (simp add: add_ctg_list_def)
next
  case (Some i)
  have "p_parent f \<in> p_parent ` set ps"
    using ctg_rec_index_Some[OF Some] by (metis imageI nth_mem)
  then show ?thesis using Some by (auto simp: add_ctg_list_def)
qed

lemma add_ctg_list_Nil: "add_ctg_list [] p = Inr [p]"
  by (simp add: add_ctg_list_def)

lemma memb_inv_init: "memb_inv P Representation_init"
  by (simp add: memb_inv_def Representation_init_def)

lemma rel_inv_init: "rel_inv Q Representation_init"
  by (simp add: rel_inv_def Representation_init_def)

subsection \<open>Invariants of the membership lists\<close>

lemma up_memb_memb_inv:
  assumes inv: "memb_inv P r" and up: "up_memb r p = Inr r'"
    and nil: "P (p_term p) [p]"
    and step: "\<And>ps. P (p_term p) ps \<Longrightarrow> p_parent p \<notin> p_parent ` set ps \<Longrightarrow> P (p_term p) (ps @ [p])"
    and emp: "\<And>k. P k []"
  shows "memb_inv P r'"
  using inv up nil step emp
  unfolding memb_inv_def up_memb_def Let_def
  by (auto simp: Individual_add_ctg_def Category_add_ctg_def Individual_init_def class_init_def
      Category_init_def add_ctg_list_Inr split: if_splits option.splits sum.splits)

lemma up_memb_rel_inv: "rel_inv Q r \<Longrightarrow> up_memb r p = Inr r' \<Longrightarrow> rel_inv Q r'"
  unfolding rel_inv_def up_memb_def Let_def
  by (auto simp: Individual_add_ctg_def Category_add_ctg_def Individual_init_def class_init_def
        Category_init_def split: if_splits option.splits sum.splits)

lemma up_memb_all_memb_inv:
  assumes "memb_inv P r"
    and "\<And>p. p \<in> set ps \<Longrightarrow> P (p_term p) [p]"
    and "\<And>p qs. p \<in> set ps \<Longrightarrow> P (p_term p) qs \<Longrightarrow> p_parent p \<notin> p_parent ` set qs \<Longrightarrow>
           P (p_term p) (qs @ [p])"
    and "\<And>k. P k []"
  shows "memb_inv P (snd (up_memb_all r ps))"
  using assms
proof (induction ps arbitrary: r)
  case Nil then show ?case by simp
next
  case (Cons p ps)
  show ?case
  proof (cases "up_memb r p")
    case (Inl e) then show ?thesis using Cons.prems(1) by simp
  next
    case (Inr r')
    have "memb_inv P r'"
      by (rule up_memb_memb_inv[OF Cons.prems(1) Inr]) (use Cons.prems in auto)
    then have "memb_inv P (snd (up_memb_all r' ps))"
      by (rule Cons.IH) (use Cons.prems in auto)
    then show ?thesis using Inr by simp
  qed
qed

lemma up_memb_all_rel_inv: "rel_inv Q r \<Longrightarrow> rel_inv Q (snd (up_memb_all r ps))"
proof (induction ps arbitrary: r)
  case Nil then show ?case by simp
next
  case (Cons p ps)
  then show ?case using up_memb_rel_inv by (cases "up_memb r p") auto
qed

lemma up_rel_step_categ:
  "up_rel_step f r s = Inr r' \<Longrightarrow>
   (\<forall>k ind'. individuals r' k = Some ind' \<longrightarrow>
       (\<exists>ind. individuals r k = Some ind \<and> i_categ ind' = i_categ ind) \<or> i_categ ind' = []) \<and>
   (\<forall>k c'. classes r' k = Some c' \<longrightarrow>
       (\<exists>c. classes r k = Some c \<and> c_parents c' = c_parents c) \<or> c_parents c' = None)"
  unfolding up_rel_step_def add_relation_class_def
  by (auto simp: Individual_add_rel_def Category_add_rel_def Individual_init_def Category_init_def Relation_init_def
      split: if_splits option.splits sum.splits)

lemma up_rel_step_memb_inv:
  assumes "memb_inv P r" "up_rel_step f r s = Inr r'" "\<And>k. P k []"
  shows "memb_inv P r'"
  using assms(1,3) up_rel_step_categ[OF assms(2)]
  unfolding memb_inv_def by (metis option.distinct(1))

lemma up_rel_loop_memb_inv:
  "memb_inv P r \<Longrightarrow> (\<And>k. P k []) \<Longrightarrow> memb_inv P (snd (up_rel_loop f r ss))"
proof (induction ss arbitrary: r)
  case Nil then show ?case by simp
next
  case (Cons s ss)
  show ?case
  proof (cases "up_rel_step f r s")
    case (Inl e) then show ?thesis using Cons.prems by simp
  next
    case (Inr r')
    then have "memb_inv P r'" using Cons.prems up_rel_step_memb_inv by blast
    then show ?thesis using Cons.IH Cons.prems(2) Inr by simp
  qed
qed

lemma up_rel_memb_inv:
  "memb_inv P r \<Longrightarrow> (\<And>k. P k []) \<Longrightarrow> memb_inv P (snd (up_rel r f))"
  by (simp add: up_rel_def up_rel_loop_memb_inv)

lemma up_rel_all_memb_inv:
  "memb_inv P r \<Longrightarrow> (\<And>k. P k []) \<Longrightarrow> memb_inv P (snd (up_rel_all r fs))"
proof (induction fs arbitrary: r)
  case Nil then show ?case by simp
next
  case (Cons f fs)
  obtain e r' where u: "up_rel r f = (e, r')" by (cases "up_rel r f")
  have "memb_inv P r'" using up_rel_memb_inv[OF Cons.prems, of f] u by simp
  then show ?case using Cons.IH[of r'] Cons.prems(2) u by (cases e) auto
qed

subsection \<open>Invariants of the relation buckets\<close>

lemma add_rel_map_Inr:
  "add_rel_map rels f = Inr m \<Longrightarrow>
   m = rels \<or> (rels (f_func f) = None \<and> m = rels(f_func f \<mapsto> [f]))"
  by (auto simp: add_rel_map_def split: option.splits)

lemma add_rel_map_inv:
  assumes am: "add_rel_map rels f = Inr m"
    and old: "\<forall>n b. rels n = Some b \<longrightarrow> Q n b"
    and one: "Q (f_func f) [f]"
  shows "\<forall>n b. m n = Some b \<longrightarrow> Q n b"
  using add_rel_map_Inr[OF am] old one by (auto split: if_splits)

lemma up_rel_step_rel_inv:
  assumes inv: "rel_inv Q r" and st: "up_rel_step f r s = Inr r'"
    and one: "Q (f_func f) [f]"
  shows "rel_inv Q r'"
proof -
  have m: "\<And>rels m. add_rel_map rels f = Inr m \<Longrightarrow> \<forall>n b. rels n = Some b \<longrightarrow> Q n b
            \<Longrightarrow> \<forall>n b. m n = Some b \<longrightarrow> Q n b"
    using add_rel_map_inv one by blast
  show ?thesis
  proof (cases "has_dollar s")
    case True
    show ?thesis
    proof (cases "individuals r s")
      case None
      then show ?thesis using inv st True one
        unfolding rel_inv_def up_rel_step_def add_relation_class_def
        by (auto simp: Individual_add_rel_def Individual_init_def Relation_init_def Category_init_def
            add_rel_map_def split: if_splits sum.splits)
    next
      case (Some ind0)
      then obtain mm where mm: "add_rel_map (i_relations ind0) f = Inr mm"
        and r': "r' = add_relation_class (r\<lparr>individuals := (individuals r)(s \<mapsto> ind0\<lparr>i_relations := mm\<rparr>)\<rparr>) (f_func f)"
        using st True unfolding up_rel_step_def
        by (auto simp: Individual_add_rel_def split: sum.splits)
      have "\<forall>n b. i_relations ind0 n = Some b \<longrightarrow> Q n b"
        using inv Some unfolding rel_inv_def by blast
      then have q: "\<forall>n b. mm n = Some b \<longrightarrow> Q n b"
        using m[OF mm] by blast
      show ?thesis using inv q unfolding r' rel_inv_def add_relation_class_def
        by (auto simp: Relation_init_def Category_init_def split: if_splits)
    qed
  next
    case False
    show ?thesis
    proof (cases "classes r s")
      case None
      then show ?thesis using inv st False one
        unfolding rel_inv_def up_rel_step_def add_relation_class_def
        by (auto simp: Category_add_rel_def Relation_init_def Category_init_def
            split: if_splits sum.splits)
    next
      case (Some c0)
      show ?thesis
      proof (cases "c_relations c0")
        case None
        then show ?thesis using inv st False one Some
          unfolding rel_inv_def up_rel_step_def add_relation_class_def
          by (auto simp: Category_add_rel_def Relation_init_def Category_init_def
              split: if_splits sum.splits)
      next
        case (Some rels)
        then obtain mm where mm: "add_rel_map rels f = Inr mm"
          and r': "r' = add_relation_class (r\<lparr>classes := (classes r)(s \<mapsto> c0\<lparr>c_relations := Some mm\<rparr>)\<rparr>) (f_func f)"
          using st False \<open>classes r s = Some c0\<close> unfolding up_rel_step_def
          by (auto simp: Category_add_rel_def split: sum.splits if_splits)
        have "\<forall>n b. rels n = Some b \<longrightarrow> Q n b"
          using inv Some \<open>classes r s = Some c0\<close> unfolding rel_inv_def by blast
        then have q: "\<forall>n b. mm n = Some b \<longrightarrow> Q n b"
          using m[OF mm] by blast
        show ?thesis using inv q unfolding r' rel_inv_def add_relation_class_def
          by (auto simp: Relation_init_def Category_init_def split: if_splits)
      qed
    qed
  qed
qed

lemma up_rel_loop_rel_inv:
  assumes "rel_inv Q r" "Q (f_func f) [f]"
  shows "rel_inv Q (snd (up_rel_loop f r ss))"
  using assms(1)
proof (induction ss arbitrary: r)
  case Nil then show ?case by simp
next
  case (Cons s ss)
  show ?case
  proof (cases "up_rel_step f r s")
    case (Inl e) then show ?thesis using Cons.prems by simp
  next
    case (Inr r')
    then have "rel_inv Q r'" using Cons.prems up_rel_step_rel_inv assms(2) by blast
    then show ?thesis using Cons.IH Inr by simp
  qed
qed

lemma up_rel_all_rel_inv:
  assumes "rel_inv Q r"
    and "\<And>f. f \<in> set fs \<Longrightarrow> Q (f_func f) [f]"
  shows "rel_inv Q (snd (up_rel_all r fs))"
  using assms
proof (induction fs arbitrary: r)
  case Nil then show ?case by simp
next
  case (Cons f fs)
  obtain e r' where u: "up_rel r f = (e, r')" by (cases "up_rel r f")
  have "rel_inv Q (snd (up_rel_loop f r (get_args f)))"
    by (rule up_rel_loop_rel_inv) (use Cons.prems in auto)
  then have r': "rel_inv Q r'" using u by (simp add: up_rel_def)
  show ?case
  proof (cases e)
    case None
    have "rel_inv Q (snd (up_rel_all r' fs))"
      by (rule Cons.IH[OF r']) (use Cons.prems in auto)
    then show ?thesis using u None by simp
  next
    case (Some a) then show ?thesis using u r' by simp
  qed
qed

subsection \<open>What the parser hands to tell\<close>

lemma GroundedTerm_init_ok:
  "GroundedTerm_init k args = Inr p \<Longrightarrow>
   pred_in_range p \<and> p_class p = GroundedTerm \<and> p_op p = ''='' \<and> p_dates p = None"
  by (auto simp: GroundedTerm_init_def LogPredicate_init_def pred_in_range_def
      split: list.splits option.splits if_splits sum.splits prod.splits)

lemma mk_args_range: "mk_args as = Inr mk \<Longrightarrow> \<forall>a\<in>set mk. arg_in_range a"
  by (induction as arbitrary: mk)
     (auto simp: arg_in_range_def split: option.splits if_splits sum.splits prod.splits)

lemma RelationFunc_init_args:
  "RelationFunc_init hsh f args = Inr fn \<Longrightarrow> \<forall>a\<in>set (f_args fn). arg_in_range a"
  by (auto simp: RelationFunc_init_def LogFunction_init_def dest!: mk_args_range
      split: sum.splits list.splits prod.splits)

lemma parse_assertions_memb:
  "parse_assertions hsh True res as = Inr res' \<Longrightarrow> p \<in> set (assert_memb res') \<Longrightarrow>
   p \<in> set (assert_memb res) \<or> (\<exists>k args. GroundedTerm_init k args = Inr p)"
proof (induction hsh True res as arbitrary: res' rule: parse_assertions.induct)
  case (1 hsh res)
  then show ?case by simp
next
  case (2 hsh res k args rest)
  then show ?case by (fastforce simp: make_fact_def split: sum.splits)
next
  case (3 hsh res f args rest)
  then show ?case by (fastforce split: sum.splits)
qed

lemma parse_assertions_rel:
  "parse_assertions hsh st res as = Inr res' \<Longrightarrow> fn \<in> set (assert_rel res') \<Longrightarrow>
   fn \<in> set (assert_rel res) \<or> (\<exists>f args. FuncA f args \<in> set as \<and> RelationFunc_init hsh f args = Inr fn)"
proof (induction hsh st res as arbitrary: res' rule: parse_assertions.induct)
  case (1 hsh st res)
  then show ?case by simp
next
  case (2 hsh st res k args rest)
  then show ?case by (fastforce split: sum.splits)
next
  case (3 hsh st res f args rest)
  then show ?case by (fastforce split: sum.splits)
qed

lemma illegal_klass_raises:
  "illegal_value (KlassA k args) \<Longrightarrow> \<exists>e. make_fact ''grounded_term'' k args = Inl e"
  by (auto simp: make_fact_def GroundedTerm_init_def LogPredicate_init_def illegal_value_def
      illegal_uval_def split: list.splits option.splits prod.splits)

lemma illegal_mk_args: "list_ex illegal_uval args \<Longrightarrow> \<exists>e. mk_args args = Inl e"
  by (induction args) (auto simp: illegal_uval_def split: option.splits sum.splits prod.splits)

lemma illegal_func_raises:
  "illegal_value (FuncA f args) \<Longrightarrow> \<exists>e. RelationFunc_init hsh f args = Inl e"
  using illegal_mk_args[of args]
  by (auto simp: RelationFunc_init_def LogFunction_init_def illegal_value_def)

lemma parse_assertions_illegal:
  "\<exists>a\<in>set as. illegal_value a \<Longrightarrow> \<exists>e. parse_assertions hsh True res as = Inl e"
proof (induction hsh True res as rule: parse_assertions.induct)
  case (1 hsh res)
  then show ?case by simp
next
  case (2 hsh res k args rest)
  show ?case
  proof (cases "make_fact ''grounded_term'' k args")
    case (Inl e)
    then show ?thesis by simp
  next
    case (Inr memb)
    then have "\<not> illegal_value (KlassA k args)" using illegal_klass_raises[of k args] by auto
    then have "\<exists>a\<in>set rest. illegal_value a" using "2.prems" by auto
    moreover have "make_fact (if True then ''grounded_term'' else ''free_term'') k args = Inr memb"
      using Inr by simp
    ultimately show ?thesis using "2.hyps" Inr by simp
  qed
next
  case (3 hsh res f args rest)
  show ?case
  proof (cases "RelationFunc_init hsh f args")
    case (Inl e)
    then show ?thesis by simp
  next
    case (Inr fn)
    then have "\<not> illegal_value (FuncA f args)" using illegal_func_raises[of f args hsh] by auto
    then have "\<exists>a\<in>set rest. illegal_value a" using "3.prems" by auto
    then show ?thesis using "3.hyps" Inr by simp
  qed
qed

lemma parsed_memb_ok:
  assumes "logic_parser hsh True ast = Inr res" "p \<in> set (assert_memb res)"
  shows "pred_in_range p \<and> p_class p = GroundedTerm \<and> p_op p = ''='' \<and> p_dates p = None"
  using parse_assertions_memb[of hsh _ "concat ast" res p] assms GroundedTerm_init_ok
  by (fastforce simp: logic_parser_def)

lemma parsed_rel_from:
  assumes "logic_parser hsh st ast = Inr res" "fn \<in> set (assert_rel res)"
  shows "\<exists>f args. FuncA f args \<in> set (concat ast) \<and> RelationFunc_init hsh f args = Inr fn"
  using parse_assertions_rel[of hsh st _ "concat ast" res fn] assms
  by (fastforce simp: logic_parser_def)

subsection \<open>Invariants of tell\<close>

lemma tell_store:
  "snd (tell hsh r ast) = r \<or>
   (\<exists>res. logic_parser hsh True ast = Inr res \<and>
      (snd (tell hsh r ast) = snd (up_memb_all r (assert_memb res)) \<or>
       snd (tell hsh r ast) =
         snd (up_rel_all (snd (up_memb_all r (assert_memb res))) (assert_rel res))))"
  by (auto simp: tell_def split: sum.splits prod.splits option.splits)

lemma tell_memb_inv:
  assumes inv: "memb_inv P r" and emp: "\<And>k. P k []"
    and step: "\<And>p qs. pred_in_range p \<Longrightarrow> p_class p = GroundedTerm \<Longrightarrow> P (p_term p) qs \<Longrightarrow>
                 p_parent p \<notin> p_parent ` set qs \<Longrightarrow> P (p_term p) (qs @ [p])"
  shows "memb_inv P (snd (tell hsh r ast))"
proof -
  {
    fix res assume res: "logic_parser hsh True ast = Inr res"
    have ok: "\<And>p. p \<in> set (assert_memb res) \<Longrightarrow> pred_in_range p \<and> p_class p = GroundedTerm"
      using parsed_memb_ok[OF res] by blast
    have a: "memb_inv P (snd (up_memb_all r (assert_memb res)))"
    proof (rule up_memb_all_memb_inv[OF inv])
      fix p assume "p \<in> set (assert_memb res)"
      then show "P (p_term p) [p]" using step[of p "[]"] ok emp by simp
    next
      fix p qs assume "p \<in> set (assert_memb res)" "P (p_term p) qs"
        "p_parent p \<notin> p_parent ` set qs"
      then show "P (p_term p) (qs @ [p])" using step ok by blast
    next
      fix k show "P k []" by (rule emp)
    qed
    then have "memb_inv P (snd (up_rel_all (snd (up_memb_all r (assert_memb res))) (assert_rel res)))"
      using up_rel_all_memb_inv emp by blast
    note a this
  }
  then show ?thesis using tell_store[of hsh r ast] inv by metis
qed

lemma tells_memb_inv:
  assumes inv: "memb_inv P r" and emp: "\<And>k. P k []"
    and step: "\<And>p qs. pred_in_range p \<Longrightarrow> p_class p = GroundedTerm \<Longrightarrow> P (p_term p) qs \<Longrightarrow>
                 p_parent p \<notin> p_parent ` set qs \<Longrightarrow> P (p_term p) (qs @ [p])"
  shows "memb_inv P (tells hsh r bs)"
  using inv
proof (induction bs arbitrary: r)
  case Nil
  then show ?case by simp
next
  case (Cons b bs)
  have "memb_inv P (snd (tell hsh r b))"
    using tell_memb_inv[OF Cons.prems emp] step by blast
  then show ?case using Cons.IH by simp
qed

lemma tell_rel_inv:
  assumes inv: "rel_inv Q r"
    and new: "\<And>f args fn. FuncA f args \<in> set (concat ast) \<Longrightarrow> RelationFunc_init hsh f args = Inr fn \<Longrightarrow>
               Q (f_func fn) [fn]"
  shows "rel_inv Q (snd (tell hsh r ast))"
proof -
  {
    fix res assume res: "logic_parser hsh True ast = Inr res"
    have a: "rel_inv Q (snd (up_memb_all r (assert_memb res)))"
      using inv by (rule up_memb_all_rel_inv)
    have "rel_inv Q (snd (up_rel_all (snd (up_memb_all r (assert_memb res))) (assert_rel res)))"
    proof (rule up_rel_all_rel_inv[OF a])
      fix f assume "f \<in> set (assert_rel res)"
      then show "Q (f_func f) [f]" using parsed_rel_from[OF res] new by blast
    qed
    note a this
  }
  then show ?thesis using tell_store[of hsh r ast] inv by metis
qed

lemma tells_rel_inv:
  assumes inv: "rel_inv Q r"
    and new: "\<And>ast f args fn. ast \<in> set bs \<Longrightarrow> FuncA f args \<in> set (concat ast) \<Longrightarrow>
               RelationFunc_init hsh f args = Inr fn \<Longrightarrow> Q (f_func fn) [fn]"
  shows "rel_inv Q (tells hsh r bs)"
  using inv new
proof (induction bs arbitrary: r)
  case Nil
  then show ?case by simp
next
  case (Cons b bs)
  have "rel_inv Q (snd (tell hsh r b))"
  proof (rule tell_rel_inv[OF Cons.prems(1)])
    fix f args fn
    assume "FuncA f args \<in> set (concat b)" "RelationFunc_init hsh f args = Inr fn"
    then show "Q (f_func fn) [fn]" using Cons.prems(2)[of b f args fn] by simp
  qed
  moreover have "\<And>ast f args fn. ast \<in> set bs \<Longrightarrow> FuncA f args \<in> set (concat ast) \<Longrightarrow>
               RelationFunc_init hsh f args = Inr fn \<Longrightarrow> Q (f_func fn) [fn]"
    using Cons.prems(2) by (meson list.set_intros(2))
  ultimately show ?case using Cons.IH by simp
qed

lemma tell_illegal:
  assumes "\<exists>a\<in>set (concat ast). illegal_value a"
  shows "\<exists>e. tell hsh r ast = (Some e, r)"
proof -
  obtain e where "parse_assertions hsh True \<lparr>assert_memb = [], assert_rel = []\<rparr> (concat ast) = Inl e"
    using parse_assertions_illegal[OF assms] by blast
  then show ?thesis by (simp add: tell_def logic_parser_def)
qed

subsection \<open>What the lists and buckets hold\<close>

lemma distinct_count:
  fixes ps :: "pred list"
  shows "distinct (map p_parent ps) \<Longrightarrow> length (filter (\<lambda>q. p_parent q = c) ps) \<le> 1"
proof (induction ps)
  case Nil
  then show ?case by simp
next
  case (Cons a ps)
  have "p_parent a \<notin> p_parent ` set ps" using Cons.prems by simp
  then have "p_parent a = c \<Longrightarrow> filter (\<lambda>q. p_parent q = c) ps = []"
    unfolding filter_empty_conv by (metis imageI)
  then show ?case using Cons by auto
qed

lemma tells_memb_unique:
  "memb_inv (\<lambda>k ps. distinct (map p_parent ps)) (tells hsh Representation_init bs)"
proof (rule tells_memb_inv[OF memb_inv_init])
  fix k :: string show "distinct (map p_parent [])" by simp
next
  fix p :: pred and qs :: "pred list"
  assume "distinct (map p_parent qs)" "p_parent p \<notin> p_parent ` set qs"
  then show "distinct (map p_parent (qs @ [p]))" by simp
qed

lemma tells_memb_in_range:
  "memb_inv (\<lambda>k ps. \<forall>q\<in>set ps. pred_in_range q) (tells hsh Representation_init bs)"
proof (rule tells_memb_inv[OF memb_inv_init])
  fix k :: string show "\<forall>q\<in>set []. pred_in_range q" by simp
next
  fix p :: pred and qs :: "pred list"
  assume "pred_in_range p" "\<forall>q\<in>set qs. pred_in_range q"
  then show "\<forall>q\<in>set (qs @ [p]). pred_in_range q" by simp
qed

lemma tells_args_in_range:
  "rel_inv (\<lambda>n b. \<forall>g\<in>set b. \<forall>a\<in>set (f_args g). arg_in_range a)
     (tells hsh Representation_init bs)"
proof (rule tells_rel_inv[OF rel_inv_init])
  fix f args fn
  assume "RelationFunc_init hsh f args = Inr fn"
  then show "\<forall>g\<in>set [fn]. \<forall>a\<in>set (f_args g). arg_in_range a"
    using RelationFunc_init_args by simp
qed

lemma tells_bucket_singleton:
  "rel_inv (\<lambda>n b. length b \<le> 1) (tells hsh Representation_init bs)"
  by (rule tells_rel_inv[OF rel_inv_init]) simp

text \<open>The attribute \<^verbatim>\<open>value\<close> of a relation whose first argument is bare.\<close>

lemma RelationFunc_init_bare_value:
  assumes "RelationFunc_init hsh f (a # as) = Inr fn" "a_uval a = None"
  shows "\<exists>c d rest. a_term a = c # d # rest \<and> f_value fn = Chr d"
  using assms
  by (auto simp: RelationFunc_init_def LogFunction_init_def arg_1_def
      split: sum.splits list.splits option.splits)

subsection \<open>One membership\<close>

lemma up_memb_individual_stored:
  assumes "has_dollar (p_term p)" "up_memb r p = Inr r'"
  shows "\<exists>ind qs. individuals r' (p_term p) = Some ind \<and> i_categ ind = qs @ [p] \<and>
           p_parent p \<notin> p_parent ` set qs"
  using assms unfolding up_memb_def Let_def
  by (auto simp: Individual_add_ctg_def Individual_init_def add_ctg_list_Inr
      split: if_splits sum.splits)

lemma up_memb_class_stored:
  assumes "\<not> has_dollar (p_term p)" "up_memb r p = Inr r'"
  shows "individuals r' = individuals r"
    and "\<exists>c ps. classes r' (p_term p) = Some c \<and> c_parents c = Some ps \<and> p \<in> set ps"
  using assms unfolding up_memb_def Let_def
  by (auto simp: Category_add_ctg_def class_init_def Category_init_def add_ctg_list_Inr
      split: if_splits sum.splits option.splits)

lemma up_memb_reassert_individual:
  assumes "has_dollar (p_term p)" "individuals r (p_term p) = Some ind"
    "p_parent p \<in> p_parent ` set (i_categ ind)"
  shows "up_memb r p = Inl AttributeError"
proof -
  have "add_ctg_list (i_categ ind) p = Inl AttributeError"
    using assms(3) by (simp add: add_ctg_list_Inl)
  then show ?thesis using assms(1,2) by (simp add: up_memb_def Let_def Individual_add_ctg_def)
qed

lemma up_memb_reassert_class:
  assumes "\<not> has_dollar (p_term p)" "classes r (p_term p) = Some c" "c_parents c = Some ps"
    "p_parent p \<in> p_parent ` set ps"
  shows "up_memb r p = Inl AttributeError"
proof -
  have "add_ctg_list ps p = Inl AttributeError"
    using assms(4) by (simp add: add_ctg_list_Inl)
  then show ?thesis using assms(1,2,3) by (simp add: up_memb_def Let_def Category_add_ctg_def)
qed

lemma up_memb_class_raises:
  assumes "\<not> has_dollar (p_term p)" "up_memb r p = Inl e"
  shows "e = AttributeError \<and>
         (\<exists>c ps. classes r (p_term p) = Some c \<and> c_parents c = Some ps \<and>
            p_parent p \<in> p_parent ` set ps)"
  using assms unfolding up_memb_def Let_def
  by (auto simp: Category_add_ctg_def class_init_def Category_init_def add_ctg_list_Inl
      split: if_splits sum.splits option.splits)

subsection \<open>keys of individuals\<close>

lemma up_memb_keys: "ind_keys_dollar r \<Longrightarrow> up_memb r p = Inr r' \<Longrightarrow> ind_keys_dollar r'"
  unfolding ind_keys_dollar_def up_memb_def Let_def
  by (auto split: option.splits if_splits sum.splits)

lemma up_memb_all_keys: "ind_keys_dollar r \<Longrightarrow> ind_keys_dollar (snd (up_memb_all r ps))"
proof (induction ps arbitrary: r)
  case Nil then show ?case by simp
next
  case (Cons p ps)
  then show ?case using up_memb_keys by (cases "up_memb r p") auto
qed

lemma up_rel_step_keys:
  "ind_keys_dollar r \<Longrightarrow> up_rel_step f r s = Inr r' \<Longrightarrow> ind_keys_dollar r'"
  unfolding ind_keys_dollar_def up_rel_step_def add_relation_class_def
  by (auto split: if_splits option.splits sum.splits)

lemma up_rel_loop_keys:
  "ind_keys_dollar r \<Longrightarrow> ind_keys_dollar (snd (up_rel_loop f r ss))"
proof (induction ss arbitrary: r)
  case Nil then show ?case by simp
next
  case (Cons s ss)
  show ?case
  proof (cases "up_rel_step f r s")
    case (Inl e) then show ?thesis using Cons.prems by simp
  next
    case (Inr r')
    then have "ind_keys_dollar r'" using Cons.prems up_rel_step_keys by blast
    then show ?thesis using Cons.IH Inr by simp
  qed
qed

lemma up_rel_all_keys:
  "ind_keys_dollar r \<Longrightarrow> ind_keys_dollar (snd (up_rel_all r fs))"
proof (induction fs arbitrary: r)
  case Nil then show ?case by simp
next
  case (Cons f fs)
  obtain e r' where u: "up_rel r f = (e, r')" by (cases "up_rel r f")
  have "ind_keys_dollar r'" using up_rel_loop_keys[OF Cons.prems, of f "get_args f"] u
    by (simp add: up_rel_def)
  then show ?case using Cons.IH[of r'] u by (cases e) auto
qed

lemma tell_keys: "ind_keys_dollar r \<Longrightarrow> ind_keys_dollar (snd (tell hsh r ast))"
  using tell_store[of hsh r ast] up_memb_all_keys up_rel_all_keys by metis

lemma tells_keys: "ind_keys_dollar r \<Longrightarrow> ind_keys_dollar (tells hsh r bs)"
  by (induction bs arbitrary: r) (auto simp: tell_keys)

lemma init_keys: "ind_keys_dollar Representation_init"
  by (simp add: ind_keys_dollar_def Representation_init_def)

subsection \<open>Looking a membership up\<close>

lemma test_pred_Pred:
  "p_term p \<noteq> [] \<Longrightarrow>
   test_pred now r (Pred p) =
     (case individuals r (p_term p) of None \<Rightarrow> Inr None
      | Some ind \<Rightarrow> Inr (Individual_test_ctg now ind p))"
  by (auto simp: test_pred_def Let_def split: list.splits option.splits)

lemma first_ctg_append:
  "c \<notin> p_parent ` set qs \<Longrightarrow> p_parent p = c \<Longrightarrow> first_ctg (qs @ [p]) c = Some p"
  by (induction qs) auto

lemma roundtrip_individual:
  assumes d: "has_dollar (p_term p)" and ne: "p_term p \<noteq> []" and g: "p_class p = GroundedTerm"
    and up: "up_memb r p = Inr r'"
  shows "test_pred now r' (Pred p) = Inr (Some True)"
proof -
  obtain ind qs where i: "individuals r' (p_term p) = Some ind" "i_categ ind = qs @ [p]"
    "p_parent p \<notin> p_parent ` set qs"
    using up_memb_individual_stored[OF d up] by blast
  have "first_ctg (i_categ ind) (p_parent p) = Some p"
    using i(2,3) by (simp add: first_ctg_append)
  moreover have "pred_eq now p p"
    using g by (simp add: pred_eq_def GroundedTerm_eq_def eval_time_truth_True)
  ultimately have "Individual_test_ctg now ind p = Some True"
    by (simp add: Individual_test_ctg_def test_ctg_list_def)
  then show ?thesis using i(1) ne by (simp add: test_pred_Pred)
qed

lemmas eval_defs =
  tell_def logic_parser_def make_fact_def GroundedTerm_init_def FreeTerm_init_def
  LogPredicate_init_def RelationFunc_init_def LogFunction_init_def arg_1_def arg_0_def
  up_memb_def up_rel_def up_rel_step_def add_relation_class_def Let_def has_dollar_def
  Representation_init_def Individual_init_def Category_init_def Relation_init_def class_init_def
  Individual_add_ctg_def Category_add_ctg_def add_ctg_list_def
  Individual_add_rel_def Category_add_rel_def add_rel_map_def chk_args_eq_def
  get_args_def arg_name_def test_pred_def Individual_test_ctg_def Category_test_ctg_def
  test_ctg_list_def pred_eq_def GroundedTerm_eq_def FreeTerm_eq_def eval_time_truth_def
  is_true_now_def Individual_test_rel_def Category_test_rel_def test_rel_map_def
  RelationFunc_eq_def rvalue_gt_def rvalue_lt_def

subsection \<open>Answers, equality, connectives and nodes\<close>




lemma FreeTerm_eq_char:
  "FreeTerm_eq now s t =
     (eval_time_truth now (p_dates s) (p_dates t) \<and>
      (p_op s = ''='' \<and> p_value t = p_value s \<or>
       p_op s = ''>'' \<and> p_value t > p_value s \<or>
       p_op s = ''<'' \<and> p_value t < p_value s))"
  unfolding FreeTerm_eq_def by (cases "eval_time_truth now (p_dates s) (p_dates t)") auto

lemma GroundedTerm_eq_char:
  "GroundedTerm_eq now s t =
     (eval_time_truth now (p_dates s) (p_dates t) \<and>
      p_parent t = p_parent s \<and> p_term t = p_term s)"
  unfolding GroundedTerm_eq_def by (cases "eval_time_truth now (p_dates s) (p_dates t)") auto

lemma pred_eq_char:
  "pred_eq now s t =
     (if p_class s = FreeTerm then FreeTerm_eq now s t else GroundedTerm_eq now s t)"
  unfolding pred_eq_def by (cases "p_class s") simp_all

lemma is_true_now_char:
  "is_true_now now (Some ds) = (odd (length ds) \<and> last ds < now)"
  "is_true_now now None"
  unfolding is_true_now_def by (simp_all add: odd_iff_mod_2_eq_one) presburger

lemma implication_truth_table:
  "implication_truth a b =
     (if a = None \<or> (a = Some True \<and> b = None) then None
      else if a = Some True \<and> b = Some False then Some False
      else Some True)"
  by (cases a; cases b) (auto simp: implication_truth_def py_and_def)

lemma sorted_add_set: "set (sorted_add x ns) = insert x (set ns)"
  by (induction ns) auto

lemma sorted_add_sorted:
  "sorted (map (\<lambda>n. created (n_rule n)) ns) \<Longrightarrow>
   sorted (map (\<lambda>n. created (n_rule n)) (sorted_add x ns))"
  by (induction ns) (auto simp: sorted_add_set)

lemma nodes_add_sorted:
  assumes "\<forall>k ns. nodes k = Some ns \<longrightarrow> sorted (map (\<lambda>n. created (n_rule n)) ns)"
  shows "\<forall>k ns. nodes_add nodes node k = Some ns \<longrightarrow> sorted (map (\<lambda>n. created (n_rule n)) ns)"
  using assms sorted_add_sorted[of _ node]
  by (auto simp: nodes_add_def split: option.splits)

lemma mk_node_sorted:
  assumes "\<forall>k ns. nodes k = Some ns \<longrightarrow> sorted (map (\<lambda>n. created (n_rule n)) ns)"
  shows "\<forall>k ns. mk_node nodes sent nc preds pos k = Some ns \<longrightarrow>
           sorted (map (\<lambda>n. created (n_rule n)) ns)"
proof -
  have "\<And>nodes. \<forall>k ns. nodes k = Some ns \<longrightarrow> sorted (map (\<lambda>n. created (n_rule n)) ns) \<Longrightarrow>
     \<forall>k ns. foldl (\<lambda>nd const. nodes_add nd (InferNode_init nc preds (atom_name const) sent))
               nodes cs k = Some ns \<longrightarrow> sorted (map (\<lambda>n. created (n_rule n)) ns)" for cs
  proof (induction cs)
    case Nil then show ?case by simp
  next
    case (Cons c cs)
    show ?case using Cons.IH[OF nodes_add_sorted[OF Cons.prems]] by simp
  qed
  then show ?thesis using assms unfolding mk_node_def by blast
qed

lemma unify_nodes_ascending:
  assumes "\<forall>k ns. nodes k = Some ns \<longrightarrow> sorted (map (\<lambda>n. created (n_rule n)) ns)"
  shows "sorted (map (\<lambda>n. created (n_rule n)) (unify_nodes nodes p))"
  using assms by (auto simp: unify_nodes_def split: option.splits)

section \<open>The claims\<close>




text \<open>
  C2. Telling a grounded membership atom and then testing it with \<^verbatim>\<open>test_pred\<close>
  should answer true. For the class subject \<^verbatim>\<open>cow\<close> the block
  \<^verbatim>\<open>animal[cow,u=1]\<close> parses to one grounded atom, \<^verbatim>\<open>tell\<close> succeeds, and
  \<^verbatim>\<open>test_pred\<close> on that atom answers \<^verbatim>\<open>None\<close>: both branches of its test on
  \<^verbatim>\<open>$\<close> read \<^verbatim>\<open>individuals\<close>, while the atom went to \<^verbatim>\<open>classes\<close>.
\<close>

theorem C2_class_subject_roundtrip:
  "logic_parser (\<lambda>n. 0) True [[KlassA ''animal'' [\<lparr>a_term = ''cow'', a_uval = Some (''='', 1)\<rparr>]]]
     = Inr \<lparr>assert_memb = [\<lparr>p_class = GroundedTerm, p_parent = ''animal'', p_term = ''cow'',
                              p_value = 1, p_op = ''='', p_dates = None\<rparr>], assert_rel = []\<rparr>
   \<and> fst (tell (\<lambda>n. 0) Representation_init
           [[KlassA ''animal'' [\<lparr>a_term = ''cow'', a_uval = Some (''='', 1)\<rparr>]]]) = None
   \<and> test_pred 1
        (snd (tell (\<lambda>n. 0) Representation_init
           [[KlassA ''animal'' [\<lparr>a_term = ''cow'', a_uval = Some (''='', 1)\<rparr>]]]))
        (Pred \<lparr>p_class = GroundedTerm, p_parent = ''animal'', p_term = ''cow'', p_value = 1,
               p_op = ''='', p_dates = None\<rparr>) = Inr None"
  by (simp add: eval_defs)

text \<open>
  C3. Every membership or relation atom held by the representation should carry a fuzzy
  value between 0 and 1. The block \<^verbatim>\<open><friend[$John;$Lucy,u=1]>\<close>, whose first
  argument carries no value, is parsed without an error, \<^verbatim>\<open>tell\<close> succeeds, and the
  relation atom stored for \<^verbatim>\<open>$John\<close> has the character \<^verbatim>\<open>J\<close> as its attribute
  \<^verbatim>\<open>value\<close>: \<^verbatim>\<open>RelationFunc.__init__\<close> sets it to \<^verbatim>\<open>mk_args[0][1]\<close>, and a
  bare first argument is a string. The values of stored membership atoms and the values
  carried by the arguments of stored relation atoms do lie in the range (lemmas
  \<open>tells_memb_in_range\<close> and \<open>tells_args_in_range\<close>), and a block that holds
  an illegal value raises and leaves the store as it was (lemma \<open>tell_illegal\<close>).
\<close>

theorem C3_relation_value_is_character:
  "logic_parser (\<lambda>n. 0) True
      [[FuncA ''friend'' [\<lparr>a_term = ''$John'', a_uval = None\<rparr>,
                         \<lparr>a_term = ''$Lucy'', a_uval = Some (''='', 1)\<rparr>]]]
     = Inr \<lparr>assert_memb = [],
            assert_rel = [\<lparr>f_func = ''friend'',
                            f_args = [Bare ''$John'', Valued ''$Lucy'' 1 ''=''],
                            f_args_ID = 0, f_arity = 2, f_value = Chr CHR ''J'',
                            f_dates = None\<rparr>]\<rparr>
   \<and> fst (tell (\<lambda>n. 0) Representation_init
           [[FuncA ''friend'' [\<lparr>a_term = ''$John'', a_uval = None\<rparr>,
                              \<lparr>a_term = ''$Lucy'', a_uval = Some (''='', 1)\<rparr>]]]) = None
   \<and> map_option (\<lambda>ind. map_option (map f_value) (i_relations ind ''friend''))
        (individuals
          (snd (tell (\<lambda>n. 0) Representation_init
             [[FuncA ''friend'' [\<lparr>a_term = ''$John'', a_uval = None\<rparr>,
                                \<lparr>a_term = ''$Lucy'', a_uval = Some (''='', 1)\<rparr>]]]))
          ''$John'')
     = Some (Some [Chr CHR ''J''])
   \<and> \<not> rvalue_in_range (Chr CHR ''J'')"
  by (simp add: eval_defs rvalue_in_range_def)

text \<open>
  C4. Asserting a membership again for a (subject, category) that is already held should
  update the stored atom in place. After \<^verbatim>\<open>cold[$Water,u=0.9]\<close>, telling
  \<^verbatim>\<open>cold[$Water,u=0.1]\<close> raises AttributeError: \<^verbatim>\<open>add_ctg\<close> calls
  \<^verbatim>\<open>update\<close> on the stored atom, a method that no class of atoms defines. The store
  is left as it was and the atom of \<^verbatim>\<open>$Water\<close> keeps the value 0.9. The same happens
  for the class subject \<^verbatim>\<open>cow\<close> through \<^verbatim>\<open>Category.add_ctg\<close>. That no subject
  ever holds two atoms of one category does hold (lemma \<open>tells_memb_unique\<close>), and
  every membership asserted again raises in this way (lemmas
  \<open>up_memb_reassert_individual\<close> and \<open>up_memb_reassert_class\<close>).
\<close>

theorem C4_reassertion_raises:
  "fst (tell (\<lambda>n. 0) Representation_init
         [[KlassA ''cold'' [\<lparr>a_term = ''$Water'', a_uval = Some (''='', 9/10)\<rparr>]]]) = None
   \<and> fst (tell (\<lambda>n. 0)
           (snd (tell (\<lambda>n. 0) Representation_init
              [[KlassA ''cold'' [\<lparr>a_term = ''$Water'', a_uval = Some (''='', 9/10)\<rparr>]]]))
           [[KlassA ''cold'' [\<lparr>a_term = ''$Water'', a_uval = Some (''='', 1/10)\<rparr>]]])
       = Some AttributeError
   \<and> snd (tell (\<lambda>n. 0)
           (snd (tell (\<lambda>n. 0) Representation_init
              [[KlassA ''cold'' [\<lparr>a_term = ''$Water'', a_uval = Some (''='', 9/10)\<rparr>]]]))
           [[KlassA ''cold'' [\<lparr>a_term = ''$Water'', a_uval = Some (''='', 1/10)\<rparr>]]])
       = snd (tell (\<lambda>n. 0) Representation_init
              [[KlassA ''cold'' [\<lparr>a_term = ''$Water'', a_uval = Some (''='', 9/10)\<rparr>]]])
   \<and> map_option i_categ
        (individuals
           (snd (tell (\<lambda>n. 0)
              (snd (tell (\<lambda>n. 0) Representation_init
                 [[KlassA ''cold'' [\<lparr>a_term = ''$Water'', a_uval = Some (''='', 9/10)\<rparr>]]]))
              [[KlassA ''cold'' [\<lparr>a_term = ''$Water'', a_uval = Some (''='', 1/10)\<rparr>]]]))
           ''$Water'')
       = Some [\<lparr>p_class = GroundedTerm, p_parent = ''cold'', p_term = ''$Water'',
                 p_value = 9/10, p_op = ''='', p_dates = None\<rparr>]
   \<and> fst (tell (\<lambda>n. 0) Representation_init
           [[KlassA ''animal'' [\<lparr>a_term = ''cow'', a_uval = Some (''='', 9/10)\<rparr>]]]) = None
   \<and> fst (tell (\<lambda>n. 0)
           (snd (tell (\<lambda>n. 0) Representation_init
              [[KlassA ''animal'' [\<lparr>a_term = ''cow'', a_uval = Some (''='', 9/10)\<rparr>]]]))
           [[KlassA ''animal'' [\<lparr>a_term = ''cow'', a_uval = Some (''='', 1/10)\<rparr>]]])
       = Some AttributeError
   \<and> map_option c_parents
        (classes
           (snd (tell (\<lambda>n. 0)
              (snd (tell (\<lambda>n. 0) Representation_init
                 [[KlassA ''animal'' [\<lparr>a_term = ''cow'', a_uval = Some (''='', 9/10)\<rparr>]]]))
              [[KlassA ''animal'' [\<lparr>a_term = ''cow'', a_uval = Some (''='', 1/10)\<rparr>]]]))
           ''cow'')
       = Some (Some [\<lparr>p_class = GroundedTerm, p_parent = ''animal'', p_term = ''cow'',
                       p_value = 9/10, p_op = ''='', p_dates = None\<rparr>])"
  by (simp add: eval_defs)

text \<open>
  C5. A relation atom whose arguments differ from the ones stored in the bucket of its
  name should be inserted. After \<^verbatim>\<open><friend[$John,u=1;$Lucy]>\<close>, telling
  \<^verbatim>\<open><friend[$John,u=1;$Mary]>\<close> succeeds, the bucket \<^verbatim>\<open>friend\<close> of
  \<^verbatim>\<open>$John\<close> still holds only the first atom, and \<^verbatim>\<open>test_pred\<close> on the second
  answers \<^verbatim>\<open>None\<close>. The loop of \<^verbatim>\<open>add_rel\<close> looks for a matching atom and
  has no branch that appends; a bucket never grows beyond one atom (lemma
  \<open>tells_bucket_singleton\<close>).
\<close>

theorem C5_second_relation_not_stored:
  "fst (tell (\<lambda>ns. if ns = [''$John'', ''$Lucy''] then 1 else 2)
         (snd (tell (\<lambda>ns. if ns = [''$John'', ''$Lucy''] then 1 else 2) Representation_init
            [[FuncA ''friend'' [\<lparr>a_term = ''$John'', a_uval = Some (''='', 1)\<rparr>,
                               \<lparr>a_term = ''$Lucy'', a_uval = None\<rparr>]]]))
         [[FuncA ''friend'' [\<lparr>a_term = ''$John'', a_uval = Some (''='', 1)\<rparr>,
                            \<lparr>a_term = ''$Mary'', a_uval = None\<rparr>]]]) = None
   \<and> map_option (\<lambda>ind. i_relations ind ''friend'')
        (individuals
          (snd (tell (\<lambda>ns. if ns = [''$John'', ''$Lucy''] then 1 else 2)
            (snd (tell (\<lambda>ns. if ns = [''$John'', ''$Lucy''] then 1 else 2) Representation_init
               [[FuncA ''friend'' [\<lparr>a_term = ''$John'', a_uval = Some (''='', 1)\<rparr>,
                                  \<lparr>a_term = ''$Lucy'', a_uval = None\<rparr>]]]))
            [[FuncA ''friend'' [\<lparr>a_term = ''$John'', a_uval = Some (''='', 1)\<rparr>,
                               \<lparr>a_term = ''$Mary'', a_uval = None\<rparr>]]]))
          ''$John'')
     = Some (Some [\<lparr>f_func = ''friend'', f_args = [Valued ''$John'' 1 ''='', Bare ''$Lucy''],
                    f_args_ID = 1, f_arity = 2, f_value = Num 1, f_dates = None\<rparr>])
   \<and> test_pred 2
        (snd (tell (\<lambda>ns. if ns = [''$John'', ''$Lucy''] then 1 else 2)
            (snd (tell (\<lambda>ns. if ns = [''$John'', ''$Lucy''] then 1 else 2) Representation_init
               [[FuncA ''friend'' [\<lparr>a_term = ''$John'', a_uval = Some (''='', 1)\<rparr>,
                                  \<lparr>a_term = ''$Lucy'', a_uval = None\<rparr>]]]))
            [[FuncA ''friend'' [\<lparr>a_term = ''$John'', a_uval = Some (''='', 1)\<rparr>,
                               \<lparr>a_term = ''$Mary'', a_uval = None\<rparr>]]]))
        (Func \<lparr>f_func = ''friend'', f_args = [Valued ''$John'' 1 ''='', Bare ''$Mary''],
                f_args_ID = 2, f_arity = 2, f_value = Num 1, f_dates = None\<rparr>)
     = Inr None"
  by (simp add: eval_defs)

text \<open>
  C6. \<^verbatim>\<open>ask\<close> should never raise and should always return a tri-valued result. For
  a query that is a free term, \<^verbatim>\<open>infer_facts\<close> builds a grounded atom for every
  candidate object; the call passes \<^verbatim>\<open>from_free\<close>, so the constructor raises
  AttributeError, which leaves \<^verbatim>\<open>ask\<close>. The substitution of the sentence evaluator,
  which passes \<^verbatim>\<open>fromfree\<close>, yields the grounded atom. The same loop raises
  NotImplementedError for a relation atom; no query of \<^verbatim>\<open>ask\<close> reaches that line,
  since only a free term declares a variable.
\<close>

theorem C6_variable_query_raises:
  "infer_var_subst
     (Pred \<lparr>p_class = FreeTerm, p_parent = ''animal'', p_term = ''x'', p_value = 1,
             p_op = ''='', p_dates = None\<rparr>) ''cow'' = Inl AttributeError
   \<and> infer_var_subst
     (Func \<lparr>f_func = ''friend'', f_args = [Valued ''x'' 1 ''='', Bare ''$Lucy''],
             f_args_ID = 0, f_arity = 2, f_value = Num 1, f_dates = None\<rparr>) ''$John''
       = Inl NotImplementedError
   \<and> FreeTerm_substitute_ground
     \<lparr>p_class = FreeTerm, p_parent = ''animal'', p_term = ''x'', p_value = 1,
      p_op = ''='', p_dates = None\<rparr> ''cow''
       = Inr \<lparr>p_class = GroundedTerm, p_parent = ''animal'', p_term = ''cow'', p_value = 1,
              p_op = ''='', p_dates = None\<rparr>"
  by (simp add: infer_var_subst_def FreeTerm_substitute_ground_def GroundedTerm_init_object_def
      GroundedTerm_fromfree_def)

text \<open>
  C7 (amended). Resolving an implication resolves the left side and then the right side;
  the node is unknown when the left side is unknown, or the left side is true and the right
  side unknown; false when the left side is true and the right side false; true in every
  other case, which includes a false left side with an unknown right side.
  \<^verbatim>\<open>solve_proof\<close> at the top of a sentence gives the same answer.
\<close>

theorem C7_implication:
  "resolve hsh now ag asg (LogicImplication l r) =
     (case resolve hsh now ag asg l of
        Inl e \<Rightarrow> Inl e
      | Inr a \<Rightarrow>
          (case resolve hsh now ag asg r of
             Inl e \<Rightarrow> Inl e
           | Inr b \<Rightarrow>
               Inr (if a = None \<or> (a = Some True \<and> b = None) then None
                    else if a = Some True \<and> b = Some False then Some False
                    else Some True)))
   \<and> LogicImplication_solve_proof hsh now ag asg l r = resolve hsh now ag asg (LogicImplication l r)"
  by (simp add: implication_truth_table LogicImplication_solve_proof_def split: sum.splits)

theorem C7_implication_witness:
  "resolve (\<lambda>n. 0) 1
     (snd (tell (\<lambda>n. 0) Representation_init
        [[KlassA ''p'' [\<lparr>a_term = ''$A'', a_uval = Some (''='', 0)\<rparr>]]])) Map.empty
     (LogicImplication
        (LogicAtom (Pred \<lparr>p_class = FreeTerm, p_parent = ''p'', p_term = ''$A'', p_value = 0,
                           p_op = ''='', p_dates = None\<rparr>))
        (LogicAtom (Pred \<lparr>p_class = FreeTerm, p_parent = ''p'', p_term = ''$A'', p_value = 1,
                           p_op = ''='', p_dates = None\<rparr>))) = Inr (Some False)"
proof -
  have l: "resolve (\<lambda>n. 0) 1
     (snd (tell (\<lambda>n. 0) Representation_init
        [[KlassA ''p'' [\<lparr>a_term = ''$A'', a_uval = Some (''='', 0)\<rparr>]]])) Map.empty
     (LogicAtom (Pred \<lparr>p_class = FreeTerm, p_parent = ''p'', p_term = ''$A'', p_value = 0,
                        p_op = ''='', p_dates = None\<rparr>)) = Inr (Some True)"
    by (simp add: eval_defs LogicAtom_resolve_def isvar_def FreeTerm_substitute_def)
  have r: "resolve (\<lambda>n. 0) 1
     (snd (tell (\<lambda>n. 0) Representation_init
        [[KlassA ''p'' [\<lparr>a_term = ''$A'', a_uval = Some (''='', 0)\<rparr>]]])) Map.empty
     (LogicAtom (Pred \<lparr>p_class = FreeTerm, p_parent = ''p'', p_term = ''$A'', p_value = 1,
                        p_op = ''='', p_dates = None\<rparr>)) = Inr (Some False)"
    by (simp add: eval_defs LogicAtom_resolve_def isvar_def FreeTerm_substitute_def)
  show ?thesis
    using C7_implication[of "\<lambda>n. 0" 1 "snd (tell (\<lambda>n. 0) Representation_init
        [[KlassA ''p'' [\<lparr>a_term = ''$A'', a_uval = Some (''='', 0)\<rparr>]]])" Map.empty
        "LogicAtom (Pred \<lparr>p_class = FreeTerm, p_parent = ''p'', p_term = ''$A'', p_value = 0,
                           p_op = ''='', p_dates = None\<rparr>)"
        "LogicAtom (Pred \<lparr>p_class = FreeTerm, p_parent = ''p'', p_term = ''$A'', p_value = 1,
                           p_op = ''='', p_dates = None\<rparr>)"]
    unfolding l r by simp
qed

text \<open>
  The claim as stated fails: with a false left side and an unknown right side the node is
  true, not unknown.
\<close>

theorem C7_implication_counterexample:
  "resolve (\<lambda>n. 0) 1
     (snd (tell (\<lambda>n. 0) Representation_init
        [[KlassA ''p'' [\<lparr>a_term = ''$A'', a_uval = Some (''='', 0)\<rparr>]]])) Map.empty
     (LogicAtom (Pred \<lparr>p_class = FreeTerm, p_parent = ''p'', p_term = ''$A'', p_value = 1,
                        p_op = ''='', p_dates = None\<rparr>)) = Inr (Some False)
   \<and> resolve (\<lambda>n. 0) 1
     (snd (tell (\<lambda>n. 0) Representation_init
        [[KlassA ''p'' [\<lparr>a_term = ''$A'', a_uval = Some (''='', 0)\<rparr>]]])) Map.empty
     (LogicAtom (Pred \<lparr>p_class = FreeTerm, p_parent = ''q'', p_term = ''$A'', p_value = 1,
                        p_op = ''='', p_dates = None\<rparr>)) = Inr None
   \<and> resolve (\<lambda>n. 0) 1
     (snd (tell (\<lambda>n. 0) Representation_init
        [[KlassA ''p'' [\<lparr>a_term = ''$A'', a_uval = Some (''='', 0)\<rparr>]]])) Map.empty
     (LogicImplication
        (LogicAtom (Pred \<lparr>p_class = FreeTerm, p_parent = ''p'', p_term = ''$A'', p_value = 1,
                           p_op = ''='', p_dates = None\<rparr>))
        (LogicAtom (Pred \<lparr>p_class = FreeTerm, p_parent = ''q'', p_term = ''$A'', p_value = 1,
                           p_op = ''='', p_dates = None\<rparr>))) = Inr (Some True)"
  by (simp add: eval_defs LogicAtom_resolve_def isvar_def FreeTerm_substitute_def
      implication_truth_def py_and_def)

text \<open>
  C8 (amended). Equality of membership atoms is decided by the class of the left
  operand, after the test of time validity (an atom with dates counts as true when their
  number is odd and the last one is past). A free term compares comparator and value:
  \<^verbatim>\<open>=\<close> wants equal values, \<^verbatim>\<open>>\<close> a greater value of the other atom,
  \<^verbatim>\<open><\<close> a smaller one. A grounded term compares category and subject only.
\<close>

theorem C8_membership_equality:
  "FreeTerm_eq now s t =
     (eval_time_truth now (p_dates s) (p_dates t) \<and>
      (p_op s = ''='' \<and> p_value t = p_value s \<or>
       p_op s = ''>'' \<and> p_value t > p_value s \<or>
       p_op s = ''<'' \<and> p_value t < p_value s))
   \<and> GroundedTerm_eq now s t =
     (eval_time_truth now (p_dates s) (p_dates t) \<and>
      p_parent t = p_parent s \<and> p_term t = p_term s)
   \<and> pred_eq now s t =
     (if p_class s = FreeTerm then FreeTerm_eq now s t else GroundedTerm_eq now s t)
   \<and> is_true_now now (Some ds) = (odd (length ds) \<and> last ds < now)
   \<and> is_true_now now None"
  using FreeTerm_eq_char[of now s t] GroundedTerm_eq_char[of now s t] pred_eq_char[of now s t]
    is_true_now_char(1)[of now ds] is_true_now_char(2)[of now]
  by blast

theorem C8_membership_equality_witness:
  "\<not> pred_eq 0
     \<lparr>p_class = FreeTerm, p_parent = ''cold'', p_term = ''$Water'', p_value = 9/10,
      p_op = ''='', p_dates = None\<rparr>
     \<lparr>p_class = GroundedTerm, p_parent = ''cold'', p_term = ''$Water'', p_value = 1/10,
      p_op = ''='', p_dates = None\<rparr>"
proof -
  have "pred_eq 0
     \<lparr>p_class = FreeTerm, p_parent = ''cold'', p_term = ''$Water'', p_value = 9/10,
      p_op = ''='', p_dates = None\<rparr>
     \<lparr>p_class = GroundedTerm, p_parent = ''cold'', p_term = ''$Water'', p_value = 1/10,
      p_op = ''='', p_dates = None\<rparr>
    = (eval_time_truth 0 None None \<and> ((1/10::real) = 9/10))"
    using C8_membership_equality[of 0 "\<lparr>p_class = FreeTerm, p_parent = ''cold'', p_term = ''$Water'', p_value = 9/10,
      p_op = ''='', p_dates = None\<rparr>"
     "\<lparr>p_class = GroundedTerm, p_parent = ''cold'', p_term = ''$Water'', p_value = 1/10,
      p_op = ''='', p_dates = None\<rparr>"]
    by simp
  then show ?thesis by simp
qed

text \<open>
  The claim as stated fails: two grounded atoms for the same subject and category with
  the values 0.9 and 0.1 under \<^verbatim>\<open>=\<close> are equal.
\<close>

theorem C8_membership_equality_counterexample:
  "pred_eq 0
     \<lparr>p_class = GroundedTerm, p_parent = ''cold'', p_term = ''$Water'', p_value = 9/10,
      p_op = ''='', p_dates = None\<rparr>
     \<lparr>p_class = GroundedTerm, p_parent = ''cold'', p_term = ''$Water'', p_value = 1/10,
      p_op = ''='', p_dates = None\<rparr>"
  by (simp add: pred_eq_def GroundedTerm_eq_def eval_time_truth_True)

text \<open>
  C9. The nodes filed under a consequent are kept sorted by the creation time of their
  rules (lemma \<open>mk_node_sorted\<close>), but the loop of \<^verbatim>\<open>unify\<close> takes them in
  that ascending order (lemma \<open>unify_nodes_ascending\<close>): of two rules for
  \<^verbatim>\<open>person\<close>, created at 2 and at 1 and filed in that order, the one created at
  1 is taken first. The comment in \<^verbatim>\<open>unify\<close> says that the newest rules take
  precedence; the reversed iteration is commented out.
\<close>

theorem C9_older_rule_first:
  "map (\<lambda>n. created (n_rule n))
     (unify_nodes
        (mk_node
           (mk_node Map.empty
              \<lparr>start = LogicIndCond
                  (LogicAtom (Pred \<lparr>p_class = FreeTerm, p_parent = ''student'', p_term = ''x'',
                                     p_value = 1, p_op = ''='', p_dates = None\<rparr>))
                  (LogicAtom (Pred \<lparr>p_class = FreeTerm, p_parent = ''person'', p_term = ''x'',
                                     p_value = 1, p_op = ''='', p_dates = None\<rparr>)),
                var_order = Some [''x''], created = 2\<rparr>
              [''student'']
              [Pred \<lparr>p_class = FreeTerm, p_parent = ''student'', p_term = ''x'',
                      p_value = 1, p_op = ''='', p_dates = None\<rparr>]
              ''right'')
           \<lparr>start = LogicIndCond
               (LogicAtom (Pred \<lparr>p_class = FreeTerm, p_parent = ''professor'', p_term = ''x'',
                                  p_value = 1, p_op = ''='', p_dates = None\<rparr>))
               (LogicAtom (Pred \<lparr>p_class = FreeTerm, p_parent = ''person'', p_term = ''x'',
                                  p_value = 1, p_op = ''='', p_dates = None\<rparr>)),
             var_order = Some [''x''], created = 1\<rparr>
           [''professor'']
           [Pred \<lparr>p_class = FreeTerm, p_parent = ''professor'', p_term = ''x'',
                   p_value = 1, p_op = ''='', p_dates = None\<rparr>]
           ''right'')
        ''person'')
   = [1, 2]"
  by (simp add: unify_nodes_def mk_node_def get_preds_def cond_def conds_def nodes_add_def
      InferNode_init_def atom_name_def)

text \<open>
  C10. For a membership atom whose subject does not begin with \<^verbatim>\<open>$\<close>,
  \<^verbatim>\<open>test_pred\<close> looks the subject up in \<^verbatim>\<open>individuals\<close>; its answer does not
  depend on \<^verbatim>\<open>classes\<close>. A membership stored for a class subject (a name without
  \<^verbatim>\<open>$\<close>) is therefore answered \<^verbatim>\<open>None\<close> although the class holds the atom.
  Storing it with \<^verbatim>\<open>up_memb\<close> fails only when the class already holds an atom of
  that category, with AttributeError.
\<close>

theorem C10_membership_lookup_in_individuals:
  assumes r: "r = tells hsh Representation_init bs"
    and ne: "p_term p \<noteq> []" and nd: "hd (p_term p) \<noteq> CHR ''$''"
  shows "test_pred now r (Pred p) =
           (case individuals r (p_term p) of None \<Rightarrow> Inr None
            | Some ind \<Rightarrow> Inr (Individual_test_ctg now ind p))
       \<and> test_pred now (r\<lparr>classes := cl\<rparr>) (Pred p) = test_pred now r (Pred p)
       \<and> (\<not> has_dollar (p_term p) \<longrightarrow>
            (case up_memb r p of
               Inr r' \<Rightarrow>
                 test_pred now r' (Pred p) = Inr None \<and>
                 (\<exists>c ps. classes r' (p_term p) = Some c \<and> c_parents c = Some ps \<and> p \<in> set ps)
             | Inl e \<Rightarrow>
                 e = AttributeError \<and>
                 (\<exists>c ps. classes r (p_term p) = Some c \<and> c_parents c = Some ps \<and>
                    p_parent p \<in> p_parent ` set ps)))"
proof (intro conjI impI)
  show "test_pred now r (Pred p) =
           (case individuals r (p_term p) of None \<Rightarrow> Inr None
            | Some ind \<Rightarrow> Inr (Individual_test_ctg now ind p))"
    using ne by (rule test_pred_Pred)
  show "test_pred now (r\<lparr>classes := cl\<rparr>) (Pred p) = test_pred now r (Pred p)"
    using ne by (simp add: test_pred_Pred)
next
  assume d: "\<not> has_dollar (p_term p)"
  have "ind_keys_dollar r" unfolding r using init_keys by (rule tells_keys)
  then have none: "individuals r (p_term p) = None" using d by (auto simp: ind_keys_dollar_def)
  show "case up_memb r p of
          Inr r' \<Rightarrow>
            test_pred now r' (Pred p) = Inr None \<and>
            (\<exists>c ps. classes r' (p_term p) = Some c \<and> c_parents c = Some ps \<and> p \<in> set ps)
        | Inl e \<Rightarrow>
            e = AttributeError \<and>
            (\<exists>c ps. classes r (p_term p) = Some c \<and> c_parents c = Some ps \<and>
               p_parent p \<in> p_parent ` set ps)"
  proof (cases "up_memb r p")
    case (Inl e)
    then show ?thesis using up_memb_class_raises[OF d Inl] by simp
  next
    case (Inr r')
    have "individuals r' (p_term p) = None"
      using up_memb_class_stored(1)[OF d Inr] none by simp
    then have "test_pred now r' (Pred p) = Inr None"
      using ne by (simp add: test_pred_Pred)
    then show ?thesis using Inr up_memb_class_stored(2)[OF d Inr] by simp
  qed
qed

theorem C10_membership_lookup_in_individuals_witness:
  "\<exists>r'. up_memb
          (tells (\<lambda>n. 0) Representation_init
             [[[KlassA ''animal'' [\<lparr>a_term = ''cow'', a_uval = Some (''='', 1)\<rparr>]]]])
          \<lparr>p_class = GroundedTerm, p_parent = ''mammal'', p_term = ''cow'', p_value = 1,
           p_op = ''='', p_dates = None\<rparr> = Inr r'
        \<and> test_pred 1 r'
            (Pred \<lparr>p_class = GroundedTerm, p_parent = ''mammal'', p_term = ''cow'', p_value = 1,
                   p_op = ''='', p_dates = None\<rparr>) = Inr None"
proof -
  let ?p = "\<lparr>p_class = GroundedTerm, p_parent = ''mammal'', p_term = ''cow'', p_value = 1::real,
           p_op = ''='', p_dates = None\<rparr>"
  let ?r = "tells (\<lambda>n. 0) Representation_init
             [[[KlassA ''animal'' [\<lparr>a_term = ''cow'', a_uval = Some (''='', 1)\<rparr>]]]]"
  have a: "p_term ?p \<noteq> []" by simp
  have b: "hd (p_term ?p) \<noteq> CHR ''$''" by simp
  have c: "\<not> has_dollar (p_term ?p)" by (simp add: has_dollar_def)
  obtain r' where u: "up_memb ?r ?p = Inr r'"
    by (simp add: eval_defs)
  show ?thesis
    using C10_membership_lookup_in_individuals[OF refl a b, where hsh = "\<lambda>n. 0"
        and bs = "[[[KlassA ''animal'' [\<lparr>a_term = ''cow'', a_uval = Some (''='', 1)\<rparr>]]]]"
        and now = 1] c u
    by simp
qed

end
